theory Spec2Isabelle
  imports Complex_Main "HOL-Library.Signed_Division"
begin

section \<open>Angular separation statistics of a star catalogue (src/src/main.c)\<close>

subsection \<open>Values of type double\<close>

text \<open>
  A C \<open>double\<close> is a NaN, an infinity or a finite number. The finite ones are
  represented by the real they denote. The program compares doubles, adds the per-worker
  sums and divides the total by the pair count; \<open>dless\<close> is the C operator \<open><\<close>
  (false as soon as one side is a NaN), and \<open>a > b\<close> of the source is \<open>dless b a\<close>.
  Addition and division are the exact ones: rounding is not represented. Every sum the
  program forms is \<open>0.0 + 0.0\<close> and every quotient is \<open>0.0 / c\<close>, which are exact.
\<close>

datatype double = NaN | NInf | PInf | Fin real

fun dless :: "double \<Rightarrow> double \<Rightarrow> bool" where
  "dless NaN b = False"
| "dless a NaN = False"
| "dless NInf NInf = False"
| "dless NInf b = True"
| "dless a NInf = False"
| "dless PInf b = False"
| "dless (Fin x) PInf = True"
| "dless (Fin x) (Fin y) = (x < y)"

fun dadd :: "double \<Rightarrow> double \<Rightarrow> double" where
  "dadd NaN b = NaN"
| "dadd a NaN = NaN"
| "dadd NInf PInf = NaN"
| "dadd PInf NInf = NaN"
| "dadd NInf b = NInf"
| "dadd a NInf = NInf"
| "dadd PInf b = PInf"
| "dadd a PInf = PInf"
| "dadd (Fin x) (Fin y) = Fin (x + y)"

text \<open>
  \<open>total_sum / total_count\<close>: the \<open>uint64_t\<close> count is converted to a double (never
  negative, so a zero count is \<open>+0.0\<close>) and divides the sum. \<open>0.0 / 0\<close> is a NaN.
\<close>

fun ddiv_count :: "double \<Rightarrow> nat \<Rightarrow> double" where
  "ddiv_count NaN c = NaN"
| "ddiv_count NInf c = NInf"
| "ddiv_count PInf c = PInf"
| "ddiv_count (Fin x) c =
     (if c = 0 then (if x = 0 then NaN else if 0 < x then PInf else NInf)
      else Fin (x / real c))"

definition DBL_MAX :: real where
  "DBL_MAX = (2 ^ 53 - 1) * 2 ^ 971"

text \<open>Conversion of an \<open>int\<close> to \<open>uint32_t\<close>.\<close>

definition u32 :: "int \<Rightarrow> nat" where
  "u32 x = nat (x mod 2 ^ 32)"

definition INT_MAX :: int where
  "INT_MAX = 2 ^ 31 - 1"

subsection \<open>Data\<close>

text \<open>
  \<open>struct Star\<close> is declared in star.h, which is not among the sources; the fields are
  the three that main.c reads and writes.
\<close>

record Star =
  ID :: int
  RightAscension :: double
  Declination :: double

text \<open>
  \<open>ThreadData\<close>; the fields \<open>end\<close>, \<open>sum\<close> and \<open>count\<close> of the source are
  \<open>end'\<close>, \<open>data_sum\<close> and \<open>data_count\<close> here.
\<close>

record ThreadData =
  start :: int
  end' :: int
  arr :: "Star list"
  data_sum :: double
  data_count :: nat

text \<open>
  The global variables \<open>min\<close>, \<open>max\<close> and \<open>mean\<close> (here \<open>min'\<close> and
  \<open>max'\<close>), and their initial values.
\<close>

record Globals =
  min' :: double
  max' :: double
  mean :: double

definition initial_globals :: Globals where
  "initial_globals = \<lparr>min' = Fin DBL_MAX, max' = Fin 0, mean = Fin 0\<rparr>"

text \<open>
  The local variables of the thread function (\<open>sum\<close> is \<open>sum'\<close> here); the counter
  is a \<open>uint64_t\<close>, which the counts of the properties below never exceed.
\<close>

record locals =
  count :: nat
  sum' :: double
  local_min :: double
  local_max :: double

definition initial_locals :: locals where
  "initial_locals = \<lparr>count = 0, sum' = Fin 0, local_min = Fin DBL_MAX, local_max = Fin 0\<rparr>"

text \<open>
  \<open>calculateAngularDistance\<close> is declared in utility.h and defined outside main.c: the
  functions below take it as the argument \<open>kdist\<close>.
\<close>

type_synonym kernel = "double \<Rightarrow> double \<Rightarrow> double \<Rightarrow> double \<Rightarrow> double"

subsection \<open>The thread function\<close>

text \<open>
  The distance of the stars in slots \<open>i\<close> and \<open>j\<close>, as the inner loop calls the kernel.
\<close>

definition distance :: "kernel \<Rightarrow> Star list \<Rightarrow> nat \<Rightarrow> nat \<Rightarrow> double" where
  "distance kdist a i j =
     kdist (RightAscension (a ! i)) (Declination (a ! i))
          (RightAscension (a ! j)) (Declination (a ! j))"

text \<open>
  The body of the inner loop. The local \<open>sum\<close> is not assigned in it.
\<close>

definition pair_step :: "kernel \<Rightarrow> Star list \<Rightarrow> nat \<Rightarrow> nat \<Rightarrow> locals \<Rightarrow> locals" where
  "pair_step kdist a i j s =
     (let d = distance kdist a i j
      in s\<lparr>count := count s + 1,
            local_min := (if dless d (local_min s) then d else local_min s),
            local_max := (if dless (local_max s) d then d else local_max s)\<rparr>)"

text \<open>
  The two loops. \<open>i\<close> and \<open>j\<close> are \<open>uint32_t\<close>; an increment is only reached below a
  \<open>uint32_t\<close> bound, so it never wraps. The bound \<open>n\<close> stands for the macro
  \<open>NUM_STARS\<close>, converted to \<open>uint32_t\<close> by the comparison.
\<close>

function inner_loop :: "kernel \<Rightarrow> nat \<Rightarrow> Star list \<Rightarrow> nat \<Rightarrow> nat \<Rightarrow> locals \<Rightarrow> locals" where
  "inner_loop kdist n a i j s =
     (if j < n then inner_loop kdist n a i (j + 1) (pair_step kdist a i j s) else s)"
  by pat_completeness auto
termination
  by (relation "measure (\<lambda>(kdist, n, a, i, j, s). n - j)") auto

declare inner_loop.simps [simp del]

function outer_loop :: "kernel \<Rightarrow> nat \<Rightarrow> Star list \<Rightarrow> nat \<Rightarrow> nat \<Rightarrow> locals \<Rightarrow> locals" where
  "outer_loop kdist n a i e s =
     (if i < e then outer_loop kdist n a (i + 1) e (inner_loop kdist n a i (i + 1) s) else s)"
  by pat_completeness auto
termination
  by (relation "measure (\<lambda>(kdist, n, a, i, e, s). e - i)") auto

declare outer_loop.simps [simp del]

text \<open>
  \<open>determineAverageAngularDistanceThread\<close>: runs the loops over the segment of
  \<open>data\<close>, stores \<open>sum\<close> and \<open>count\<close> in it and, under the mutex, updates the global
  \<open>min\<close> and \<open>max\<close>.
\<close>

definition determineAverageAngularDistanceThread ::
  "kernel \<Rightarrow> int \<Rightarrow> ThreadData \<Rightarrow> Globals \<Rightarrow> ThreadData \<times> Globals" where
  "determineAverageAngularDistanceThread kdist n data g =
     (let s = outer_loop kdist (u32 n) (arr data) (u32 (start data)) (u32 (end' data))
                initial_locals
      in (data\<lparr>data_sum := sum' s, data_count := count s\<rparr>,
          g\<lparr>min' := (if dless (local_min s) (min' g) then local_min s else min' g),
            max' := (if dless (max' g) (local_max s) then local_max s else max' g)\<rparr>))"

subsection \<open>The coordinator\<close>

datatype error = DivisionByZero | TooManyColumns nat

text \<open>
  The entry \<open>data[i]\<close> as the creation loop fills it. \<open>sum\<close> and \<open>count\<close> are
  indeterminate until the worker stores them, and are stored before they are read.
\<close>

definition segment :: "int \<Rightarrow> Star list \<Rightarrow> int \<Rightarrow> int \<Rightarrow> int \<Rightarrow> ThreadData" where
  "segment n a num_threads stars_per_thread i =
     \<lparr>start = i * stars_per_thread,
      end' = (if i = num_threads - 1 then n else (i + 1) * stars_per_thread),
      arr = a, data_sum = Fin 0, data_count = 0\<rparr>"

text \<open>
  The creation loop. The workers run concurrently and touch shared state only in the
  update of \<open>min\<close> and \<open>max\<close> that the mutex serialises; here each worker runs to its
  end when it is created.
\<close>

function create_threads ::
  "kernel \<Rightarrow> int \<Rightarrow> Star list \<Rightarrow> int \<Rightarrow> int \<Rightarrow> int \<Rightarrow> ThreadData list \<times> Globals
     \<Rightarrow> ThreadData list \<times> Globals" where
  "create_threads kdist n a num_threads stars_per_thread i (data, g) =
     (if i < num_threads
      then (case determineAverageAngularDistanceThread kdist n
                   (segment n a num_threads stars_per_thread i) g of
              (d, g') \<Rightarrow>
                create_threads kdist n a num_threads stars_per_thread (i + 1) (data @ [d], g'))
      else (data, g))"
  by pat_completeness auto
termination
  by (relation "measure (\<lambda>(kdist, n, a, num_threads, spt, i, st). nat (num_threads - i))") auto

declare create_threads.simps [simp del]

text \<open>The loop that adds up the sums and the counts of the workers.\<close>

function accumulate :: "ThreadData list \<Rightarrow> int \<Rightarrow> int \<Rightarrow> double \<times> nat \<Rightarrow> double \<times> nat" where
  "accumulate data num_threads i (total_sum, total_count) =
     (if i < num_threads
      then accumulate data num_threads (i + 1)
             (dadd total_sum (data_sum (data ! nat i)),
              total_count + data_count (data ! nat i))
      else (total_sum, total_count))"
  by pat_completeness auto
termination
  by (relation "measure (\<lambda>(data, num_threads, i, t). nat (num_threads - i))") auto

declare accumulate.simps [simp del]

text \<open>
  The array \<open>data\<close> after the creation loop and the pair \<open>(total_sum, total_count)\<close>
  after the accumulation loop, the two intermediate results of the function below.
\<close>

definition thread_data :: "kernel \<Rightarrow> int \<Rightarrow> Star list \<Rightarrow> int \<Rightarrow> Globals \<Rightarrow> ThreadData list" where
  "thread_data kdist n a num_threads g =
     fst (create_threads kdist n a num_threads (n sdiv num_threads) 0 ([], g))"

definition totals :: "kernel \<Rightarrow> int \<Rightarrow> Star list \<Rightarrow> int \<Rightarrow> Globals \<Rightarrow> double \<times> nat" where
  "totals kdist n a num_threads g =
     accumulate (thread_data kdist n a num_threads g) num_threads 0 (Fin 0, 0)"

text \<open>
  \<open>determineAverageAngularDistance\<close>. The integer division traps when
  \<open>num_threads\<close> is zero; C division truncates, hence \<open>sdiv\<close>. The function checks
  nothing about \<open>num_threads\<close>. The two arrays of \<open>num_threads\<close> entries are only
  indexed inside the loops, which a \<open>num_threads\<close> below one never enters; ISO C leaves
  the declaration of an array of such a length undefined, and the definition follows the
  statements that come after it. The join loop changes no variable. The values a C \<open>int\<close>
  takes here lie between 0 and \<open>n\<close>, so the unbounded \<open>int\<close> of HOL computes them
  exactly when \<open>n \<le> INT_MAX\<close>.
\<close>

definition determineAverageAngularDistance ::
  "kernel \<Rightarrow> int \<Rightarrow> Star list \<Rightarrow> int \<Rightarrow> Globals \<Rightarrow> error + Globals" where
  "determineAverageAngularDistance kdist n a num_threads g =
     (if num_threads = 0 then Inl DivisionByZero
      else
        (case create_threads kdist n a num_threads (n sdiv num_threads) 0 ([], g) of
           (data, g') \<Rightarrow>
             (case accumulate data num_threads 0 (Fin 0, 0) of
                (total_sum, total_count) \<Rightarrow>
                   Inr (g'\<lparr>mean := ddiv_count total_sum total_count\<rparr>))))"

subsection \<open>The loader of main and the program\<close>

definition NUM_STARS :: int where
  "NUM_STARS = 30000"

text \<open>
  A token of a line, given by what \<open>atoi\<close> and \<open>atof\<close> return for it; a line is the
  list of its tokens.
\<close>

record token =
  atoi :: int
  atof :: double

text \<open>The \<open>switch\<close> on the column: a fourth column ends the program.\<close>

fun store_columns :: "Star \<Rightarrow> nat \<Rightarrow> token list \<Rightarrow> Star option" where
  "store_columns s column [] = Some s"
| "store_columns s column (tok # toks) =
     (if column = 0 then store_columns (s\<lparr>ID := atoi tok\<rparr>) (column + 1) toks
      else if column = 1 then store_columns (s\<lparr>RightAscension := atof tok\<rparr>) (column + 1) toks
      else if column = 2 then store_columns (s\<lparr>Declination := atof tok\<rparr>) (column + 1) toks
      else None)"

text \<open>
  The reading loop: line number \<open>star_count\<close> is stored in slot \<open>star_count\<close>, with
  no check against the length of the array. A store past the end of the array leaves the
  array as it is and the loop carries on; only the fourth column of a line ends the
  program there too. What such a store overwrites outside the array is not represented,
  so the definition says what the program does for files of at most \<open>NUM_STARS\<close> lines.
  \<open>star_count\<close> is a \<open>uint32_t\<close>. A line without a token stores nothing.
\<close>

fun read_lines :: "Star list \<Rightarrow> nat \<Rightarrow> token list list \<Rightarrow> error + Star list \<times> nat" where
  "read_lines sa star_count [] = Inr (sa, star_count)"
| "read_lines sa star_count (l # ls) =
     (if l = [] then read_lines sa ((star_count + 1) mod 2 ^ 32) ls
      else if length sa \<le> star_count
        then (if 3 < length l then Inl (TooManyColumns star_count)
              else read_lines sa ((star_count + 1) mod 2 ^ 32) ls)
      else (case store_columns (sa ! star_count) 0 l of
              None \<Rightarrow> Inl (TooManyColumns star_count)
            | Some s \<Rightarrow> read_lines (sa[star_count := s]) ((star_count + 1) mod 2 ^ 32) ls))"

definition zero_Star :: Star where
  "zero_Star = \<lparr>ID = 0, RightAscension = Fin 0, Declination = Fin 0\<rparr>"

text \<open>\<open>star_array\<close> before the loader runs: static storage is zero.\<close>

definition star_array :: "Star list" where
  "star_array = replicate (nat NUM_STARS) zero_Star"

text \<open>
  \<open>main\<close>, from the lines of the file and the thread count of the command line to
  the three globals it prints. The number of lines read is printed and not used again. A
  file that cannot be opened and a mutex that cannot be initialised end the program before
  the loader; they are left out.
\<close>

definition main :: "kernel \<Rightarrow> token list list \<Rightarrow> int \<Rightarrow> error + Globals" where
  "main kdist lines num_threads =
     (case read_lines star_array 0 lines of
        Inl e \<Rightarrow> Inl e
      | Inr (sa, star_count) \<Rightarrow>
          determineAverageAngularDistance kdist NUM_STARS sa num_threads initial_globals)"

subsection \<open>The spec's kernel\<close>

text \<open>
  Modelled from the spec: \<open>calculateAngularDistance\<close> is defined in utility.c, which
  is not among the sources. The spec's section 4.1 gives it as the spherical law of cosines on
  the coordinates converted to radians, the cosine clamped to \<open>[-1, 1]\<close>, over the
  reals here. A coordinate that is not finite gives a NaN.
\<close>

definition radians :: "real \<Rightarrow> real" where
  "radians x = x * pi / 180"

definition degrees :: "real \<Rightarrow> real" where
  "degrees x = x * 180 / pi"

definition clamp :: "real \<Rightarrow> real" where
  "clamp c = max (- 1) (min 1 c)"

definition cosTheta :: "real \<Rightarrow> real \<Rightarrow> real \<Rightarrow> real \<Rightarrow> real" where
  "cosTheta ra1 dec1 ra2 dec2 =
     sin (radians dec1) * sin (radians dec2)
     + cos (radians dec1) * cos (radians dec2) * cos (radians ra1 - radians ra2)"

fun calculateAngularDistance :: kernel where
  "calculateAngularDistance (Fin ra1) (Fin dec1) (Fin ra2) (Fin dec2) =
     Fin (degrees (arccos (clamp (cosTheta ra1 dec1 ra2 dec2))))"
| "calculateAngularDistance ra1 dec1 ra2 dec2 = NaN"

text \<open>
  Modelled from the spec: the same kernel as a computation on doubles. The value that the
  floating-point evaluation of the law of cosines yields is near the exact one, not equal
  to it; \<open>rnd\<close> stands for that rounding and is arbitrary. The \<open>acos\<close> of the C library
  returns a NaN outside \<open>[-1, 1]\<close>. \<open>unclamped_distance\<close> is the kernel without the
  clamp, for comparison.
\<close>

definition acos_double :: "real \<Rightarrow> double" where
  "acos_double x = (if - 1 \<le> x \<and> x \<le> 1 then Fin (arccos x) else NaN)"

definition rounded_distance :: "(real \<Rightarrow> real) \<Rightarrow> real \<Rightarrow> real \<Rightarrow> real \<Rightarrow> real \<Rightarrow> double" where
  "rounded_distance rnd ra1 dec1 ra2 dec2 =
     (case acos_double (clamp (rnd (cosTheta ra1 dec1 ra2 dec2))) of
        Fin t \<Rightarrow> Fin (rnd (degrees t))
      | d \<Rightarrow> NaN)"

definition unclamped_distance :: "(real \<Rightarrow> real) \<Rightarrow> real \<Rightarrow> real \<Rightarrow> real \<Rightarrow> real \<Rightarrow> double" where
  "unclamped_distance rnd ra1 dec1 ra2 dec2 =
     (case acos_double (rnd (cosTheta ra1 dec1 ra2 dec2)) of
        Fin t \<Rightarrow> Fin (rnd (degrees t))
      | d \<Rightarrow> NaN)"

subsection \<open>Notions used in the statements\<close>

text \<open>
  The pairs \<open>(i, j)\<close> with \<open>s \<le> i < e\<close> and \<open>i < j < n\<close>, in the order of the two
  loops.
\<close>

definition pairs :: "nat \<Rightarrow> nat \<Rightarrow> nat \<Rightarrow> (nat \<times> nat) list" where
  "pairs n s e = concat (map (\<lambda>i. map (Pair i) [i + 1..<n]) [s..<e])"

text \<open>The two conditional assignments \<open>if (m > d) m = d\<close> and \<open>if (m < d) m = d\<close>.\<close>

definition upd_min :: "double \<Rightarrow> double \<Rightarrow> double" where
  "upd_min m d = (if dless d m then d else m)"

definition upd_max :: "double \<Rightarrow> double \<Rightarrow> double" where
  "upd_max m d = (if dless m d then d else m)"

definition dmin_list :: "double list \<Rightarrow> double \<Rightarrow> double" where
  "dmin_list ds m = fold (\<lambda>d m. upd_min m d) ds m"

definition dmax_list :: "double list \<Rightarrow> double \<Rightarrow> double" where
  "dmax_list ds m = fold (\<lambda>d m. upd_max m d) ds m"

text \<open>The distances of a list of pairs of slots.\<close>

definition distances :: "kernel \<Rightarrow> Star list \<Rightarrow> (nat \<times> nat) list \<Rightarrow> double list" where
  "distances kdist a ps = map (\<lambda>(i, j). distance kdist a i j) ps"

text \<open>The real that a finite double denotes.\<close>

fun fin_val :: "double \<Rightarrow> real" where
  "fin_val (Fin x) = x"
| "fin_val d = 0"

text \<open>
  Segments \<open>[s, e)\<close> that follow one another from \<open>x\<close> up to \<open>n\<close>.
\<close>

fun chain :: "nat \<Rightarrow> (nat \<times> nat) list \<Rightarrow> nat \<Rightarrow> bool" where
  "chain x [] n = (x = n)"
| "chain x ((s, e) # bs) n = (s = x \<and> s \<le> e \<and> e \<le> n \<and> chain e bs n)"

text \<open>
  The pairs that the worker of an entry of \<open>data\<close> visits, the entry as the worker
  leaves it, and the globals as it leaves them.
\<close>

definition seg_pairs :: "int \<Rightarrow> ThreadData \<Rightarrow> (nat \<times> nat) list" where
  "seg_pairs n d = pairs (u32 n) (u32 (start d)) (u32 (end' d))"

definition worker_data :: "int \<Rightarrow> ThreadData \<Rightarrow> ThreadData" where
  "worker_data n d = d\<lparr>data_sum := Fin 0, data_count := length (seg_pairs n d)\<rparr>"

definition worker_globals :: "kernel \<Rightarrow> int \<Rightarrow> ThreadData \<Rightarrow> Globals \<Rightarrow> Globals" where
  "worker_globals kdist n d g =
     g\<lparr>min' := upd_min (min' g) (dmin_list (distances kdist (arr d) (seg_pairs n d)) (Fin DBL_MAX)),
       max' := upd_max (max' g) (dmax_list (distances kdist (arr d) (seg_pairs n d)) (Fin 0))\<rparr>"

text \<open>
  The catalogue of the spec's first concrete scenario: three points at
  \<open>(RA, Dec) = (0, 0)\<close>, \<open>(0, 90)\<close> and \<open>(180, 0)\<close>.
\<close>

definition star_at :: "int \<Rightarrow> real \<Rightarrow> real \<Rightarrow> Star" where
  "star_at k ra dec = \<lparr>ID = k, RightAscension = Fin ra, Declination = Fin dec\<rparr>"

definition example_catalogue :: "Star list" where
  "example_catalogue = [star_at 1 0 0, star_at 2 0 90, star_at 3 180 0]"

text \<open>
  Two input files: the three points of the example catalogue, one per line, and 30000
  lines whose point number \<open>k\<close> lies on the equator at right ascension \<open>k / 1000\<close>
  degrees. \<open>tok i x\<close> is a token that \<open>atoi\<close> reads as \<open>i\<close> and \<open>atof\<close> as \<open>x\<close>.
\<close>

definition tok :: "int \<Rightarrow> real \<Rightarrow> token" where
  "tok i x = \<lparr>atoi = i, atof = Fin x\<rparr>"

definition example_lines :: "token list list" where
  "example_lines =
     [[tok 1 1, tok 0 0, tok 0 0], [tok 2 2, tok 0 0, tok 90 90], [tok 3 3, tok 180 180, tok 0 0]]"

definition spread_line :: "nat \<Rightarrow> token list" where
  "spread_line k = [tok (int k) (real k), tok (int k div 1000) (real k / 1000), tok 0 0]"

definition spread_lines :: "token list list" where
  "spread_lines = map spread_line [0..<30000]"

text \<open>The array after the loader has read each of the two files.\<close>

definition example_array :: "Star list" where
  "example_array = star_array[0 := star_at 1 0 0, 1 := star_at 2 0 90, 2 := star_at 3 180 0]"

definition spread_array :: "Star list" where
  "spread_array = map (\<lambda>k. star_at (int k) (real k / 1000) 0) [0..<30000]"



text \<open>A star whose two coordinates are finite.\<close>

definition finite_coords :: "Star \<Rightarrow> bool" where
  "finite_coords s = (\<exists>ra dec. RightAscension s = Fin ra \<and> Declination s = Fin dec)"

section \<open>Properties\<close>

subsection \<open>The loops of a worker\<close>

lemma inner_loop_fold:
  "inner_loop kdist n a i j s = fold (pair_step kdist a i) [j..<n] s"
proof (induction kdist n a i j s rule: inner_loop.induct)
  case (1 kdist n a i j s)
  show ?case
  proof (cases "j < n")
    case True
    then have "[j..<n] = j # [j + 1..<n]" by (simp add: upt_conv_Cons)
    with True 1 show ?thesis by (subst inner_loop.simps) simp
  next
    case False
    then show ?thesis by (subst inner_loop.simps) simp
  qed
qed

lemma pairs_Cons: "i < e \<Longrightarrow> pairs n i e = map (Pair i) [i + 1..<n] @ pairs n (i + 1) e"
  by (simp add: pairs_def upt_conv_Cons)

lemma pairs_empty [simp]: "e \<le> i \<Longrightarrow> pairs n i e = []"
  by (simp add: pairs_def)

lemma outer_loop_fold:
  "outer_loop kdist n a i e s = fold (\<lambda>(i, j). pair_step kdist a i j) (pairs n i e) s"
proof (induction kdist n a i e s rule: outer_loop.induct)
  case (1 kdist n a i e s)
  show ?case
  proof (cases "i < e")
    case True
    have "fold (\<lambda>(i, j). pair_step kdist a i j) (map (Pair i) [i + 1..<n]) s
        = inner_loop kdist n a i (i + 1) s"
      by (simp add: inner_loop_fold fold_map comp_def)
    with True 1 show ?thesis by (subst outer_loop.simps) (simp add: pairs_Cons)
  next
    case False
    then show ?thesis by (subst outer_loop.simps) simp
  qed
qed

lemma pairs_append: "s \<le> m \<Longrightarrow> m \<le> e \<Longrightarrow> pairs n s m @ pairs n m e = pairs n s e"
proof -
  assume sm: "s \<le> m" and me: "m \<le> e"
  then obtain k where e: "e = m + k" using le_Suc_ex by blast
  have "[s..<m + k] = [s..<m] @ [m..<m + k]"
    using sm by (rule upt_add_eq_append)
  then show ?thesis by (simp add: pairs_def e)
qed

lemma set_pairs: "set (pairs n s e) = {(i, j). s \<le> i \<and> i < e \<and> i < j \<and> j < n}"
  by (auto simp: pairs_def)

lemma pairs_Suc: "s \<le> e \<Longrightarrow> pairs n s (Suc e) = pairs n s e @ map (Pair e) [e + 1..<n]"
  by (simp add: pairs_def)

lemma distinct_pairs: "distinct (pairs n s e)"
proof (induction e)
  case 0
  show ?case by (simp add: pairs_def)
next
  case (Suc e)
  show ?case
  proof (cases "s \<le> e")
    case True
    have "set (pairs n s e) \<inter> set (map (Pair e) [e + 1..<n]) = {}"
      by (auto simp: set_pairs)
    moreover have "distinct (map (Pair e) [e + 1..<n])"
      by (simp add: distinct_map inj_on_def)
    ultimately show ?thesis using Suc True by (simp add: pairs_Suc del: set_map)
  next
    case False
    then show ?thesis by simp
  qed
qed

lemma length_pairs: "length (pairs n s e) = (\<Sum>i = s..<e. n - (i + 1))"
proof (induction e)
  case 0
  show ?case by (simp add: pairs_def)
next
  case (Suc e)
  show ?case
  proof (cases "s \<le> e")
    case True
    with Suc show ?thesis by (simp add: pairs_Suc)
  next
    case False
    then show ?thesis by simp
  qed
qed

lemma length_pairs_all: "length (pairs n 0 n) = n * (n - 1) div 2"
proof -
  have "(\<Sum>i = 0..<n. n - (i + 1)) = (\<Sum>i = 0..<n. i)"
    using sum.atLeastLessThan_rev [of "\<lambda>i. i" 0 n] by simp
  also have "\<dots> = n * (n - 1) div 2"
    by (simp add: Sum_Ico_nat)
  finally show ?thesis by (simp only: length_pairs)
qed

subsection \<open>Minimum and maximum by comparison\<close>

lemma upd_min_assoc: "a \<noteq> NaN \<Longrightarrow> upd_min g (upd_min a d) = upd_min (upd_min g a) d"
  by (cases g; cases a; cases d) (auto simp: upd_min_def)

lemma upd_max_assoc: "a \<noteq> NaN \<Longrightarrow> upd_max g (upd_max a d) = upd_max (upd_max g a) d"
  by (cases g; cases a; cases d) (auto simp: upd_max_def)

lemma upd_min_not_NaN: "a \<noteq> NaN \<Longrightarrow> upd_min a d \<noteq> NaN"
  by (cases a; cases d) (auto simp: upd_min_def)

lemma upd_max_not_NaN: "a \<noteq> NaN \<Longrightarrow> upd_max a d \<noteq> NaN"
  by (cases a; cases d) (auto simp: upd_max_def)

lemma dmin_list_merge: "a \<noteq> NaN \<Longrightarrow> upd_min g (dmin_list ds a) = dmin_list ds (upd_min g a)"
proof (induction ds arbitrary: a g)
  case Nil
  show ?case by (simp add: dmin_list_def)
next
  case (Cons d ds)
  have "upd_min g (dmin_list (d # ds) a) = upd_min g (dmin_list ds (upd_min a d))"
    by (simp add: dmin_list_def)
  also have "\<dots> = dmin_list ds (upd_min g (upd_min a d))"
    using Cons.prems by (intro Cons.IH upd_min_not_NaN)
  also have "\<dots> = dmin_list (d # ds) (upd_min g a)"
    using Cons.prems by (simp add: upd_min_assoc dmin_list_def)
  finally show ?case .
qed

lemma dmax_list_merge: "a \<noteq> NaN \<Longrightarrow> upd_max g (dmax_list ds a) = dmax_list ds (upd_max g a)"
proof (induction ds arbitrary: a g)
  case Nil
  show ?case by (simp add: dmax_list_def)
next
  case (Cons d ds)
  have "upd_max g (dmax_list (d # ds) a) = upd_max g (dmax_list ds (upd_max a d))"
    by (simp add: dmax_list_def)
  also have "\<dots> = dmax_list ds (upd_max g (upd_max a d))"
    using Cons.prems by (intro Cons.IH upd_max_not_NaN)
  also have "\<dots> = dmax_list (d # ds) (upd_max g a)"
    using Cons.prems by (simp add: upd_max_assoc dmax_list_def)
  finally show ?case .
qed

lemma dmin_list_append: "dmin_list (xs @ ys) m = dmin_list ys (dmin_list xs m)"
  by (simp add: dmin_list_def)

lemma dmax_list_append: "dmax_list (xs @ ys) m = dmax_list ys (dmax_list xs m)"
  by (simp add: dmax_list_def)

text \<open>The global minimum never exceeds \<open>DBL_MAX\<close>, the global maximum is never below 0.\<close>

lemma upd_min_le_max: "\<not> dless (Fin DBL_MAX) g \<Longrightarrow> \<not> dless (Fin DBL_MAX) (upd_min g d)"
  by (cases g; cases d) (auto simp: upd_min_def)

lemma upd_max_ge_zero: "\<not> dless g (Fin 0) \<Longrightarrow> \<not> dless (upd_max g d) (Fin 0)"
  by (cases g; cases d) (auto simp: upd_max_def)

lemma dmin_list_le_max: "\<not> dless (Fin DBL_MAX) g \<Longrightarrow> \<not> dless (Fin DBL_MAX) (dmin_list ds g)"
  by (induction ds arbitrary: g) (simp_all add: dmin_list_def upd_min_le_max)

lemma dmax_list_ge_zero: "\<not> dless g (Fin 0) \<Longrightarrow> \<not> dless (dmax_list ds g) (Fin 0)"
  by (induction ds arbitrary: g) (simp_all add: dmax_list_def upd_max_ge_zero)

lemma merge_min: "\<not> dless (Fin DBL_MAX) g \<Longrightarrow> upd_min g (dmin_list ds (Fin DBL_MAX)) = dmin_list ds g"
  by (simp add: dmin_list_merge) (simp add: upd_min_def)

lemma merge_max: "\<not> dless g (Fin 0) \<Longrightarrow> upd_max g (dmax_list ds (Fin 0)) = dmax_list ds g"
  by (simp add: dmax_list_merge) (simp add: upd_max_def)

text \<open>What the loops leave in the locals.\<close>

lemma pair_step_fields:
  "count (pair_step kdist a i j s) = count s + 1"
  "sum' (pair_step kdist a i j s) = sum' s"
  "local_min (pair_step kdist a i j s) = upd_min (local_min s) (distance kdist a i j)"
  "local_max (pair_step kdist a i j s) = upd_max (local_max s) (distance kdist a i j)"
  by (simp_all add: pair_step_def Let_def upd_min_def upd_max_def)

lemma fold_pair_step:
  "count (fold (\<lambda>(i, j). pair_step kdist a i j) ps s) = count s + length ps
   \<and> sum' (fold (\<lambda>(i, j). pair_step kdist a i j) ps s) = sum' s
   \<and> local_min (fold (\<lambda>(i, j). pair_step kdist a i j) ps s)
       = dmin_list (distances kdist a ps) (local_min s)
   \<and> local_max (fold (\<lambda>(i, j). pair_step kdist a i j) ps s)
       = dmax_list (distances kdist a ps) (local_max s)"
proof (induction ps arbitrary: s)
  case Nil
  show ?case by (simp add: dmin_list_def dmax_list_def distances_def)
next
  case (Cons p ps)
  obtain i j where p: "p = (i, j)" by (cases p)
  show ?case
    using Cons.IH [of "pair_step kdist a i j s"]
    by (simp add: p pair_step_fields dmin_list_def dmax_list_def distances_def)
qed

lemma thread_result:
  "determineAverageAngularDistanceThread kdist n d g =
     (d\<lparr>data_sum := Fin 0,
        data_count := length (pairs (u32 n) (u32 (start d)) (u32 (end' d)))\<rparr>,
      g\<lparr>min' := upd_min (min' g)
                 (dmin_list (distances kdist (arr d) (pairs (u32 n) (u32 (start d)) (u32 (end' d))))
                    (Fin DBL_MAX)),
        max' := upd_max (max' g)
                 (dmax_list (distances kdist (arr d) (pairs (u32 n) (u32 (start d)) (u32 (end' d))))
                    (Fin 0))\<rparr>)"
  by (simp add: determineAverageAngularDistanceThread_def Let_def outer_loop_fold fold_pair_step
      initial_locals_def upd_min_def upd_max_def)

subsection \<open>The loops of the coordinator\<close>

lemma thread_eq:
  "determineAverageAngularDistanceThread kdist n d g = (worker_data n d, worker_globals kdist n d g)"
  by (simp add: thread_result worker_data_def worker_globals_def seg_pairs_def)

lemma create_threads_eq:
  "create_threads kdist n a T spt i (data, g) =
     (data @ map (\<lambda>j. worker_data n (segment n a T spt j)) [i..T - 1],
      fold (\<lambda>j. worker_globals kdist n (segment n a T spt j)) [i..T - 1] g)"
proof (induction kdist n a T spt i "(data, g)" arbitrary: data g rule: create_threads.induct)
  case (1 kdist n a T spt i data g)
  show ?case
  proof (cases "i < T")
    case True
    then have up: "[i..T - 1] = i # [i + 1..T - 1]" by (simp add: upto_rec1)
    show ?thesis
      using True 1 [OF True thread_eq [symmetric]]
      by (subst create_threads.simps) (simp add: thread_eq up)
  next
    case False
    then show ?thesis by (subst create_threads.simps) simp
  qed
qed

lemma accumulate_eq:
  "0 \<le> i \<Longrightarrow> i \<le> T \<Longrightarrow> length data = nat T \<Longrightarrow>
   accumulate data T i (ts, tc) =
     (fold (\<lambda>d s. dadd s (data_sum d)) (drop (nat i) data) ts,
      tc + sum_list (map data_count (drop (nat i) data)))"
proof (induction data T i "(ts, tc)" arbitrary: ts tc rule: accumulate.induct)
  case (1 data T i ts tc)
  show ?case
  proof (cases "i < T")
    case True
    with 1 have "nat i < length data" by simp
    then have dr: "drop (nat i) data = data ! nat i # drop (nat (i + 1)) data"
      using "1.prems" by (simp add: Cons_nth_drop_Suc nat_add_distrib)
    show ?thesis
      using True 1 by (subst accumulate.simps) (simp add: dr)
  next
    case False
    with 1 have "i = T" by simp
    with 1 show ?thesis by (subst accumulate.simps) simp
  qed
qed

lemma distances_append: "distances kdist a (xs @ ys) = distances kdist a xs @ distances kdist a ys"
  by (simp add: distances_def)

lemma worker_globals_fields:
  assumes "\<not> dless (Fin DBL_MAX) (min' g)" "\<not> dless (max' g) (Fin 0)"
  shows "min' (worker_globals kdist n d g) = dmin_list (distances kdist (arr d) (seg_pairs n d)) (min' g)"
    and "max' (worker_globals kdist n d g) = dmax_list (distances kdist (arr d) (seg_pairs n d)) (max' g)"
    and "mean (worker_globals kdist n d g) = mean g"
  using assms by (simp_all add: worker_globals_def merge_min merge_max)

lemma fold_worker_globals:
  assumes "\<not> dless (Fin DBL_MAX) (min' g)" "\<not> dless (max' g) (Fin 0)"
    and "\<forall>j \<in> set js. arr (seg j) = a"
  shows "min' (fold (\<lambda>j. worker_globals kdist n (seg j)) js g)
           = dmin_list (distances kdist a (concat (map (\<lambda>j. seg_pairs n (seg j)) js))) (min' g)
       \<and> max' (fold (\<lambda>j. worker_globals kdist n (seg j)) js g)
           = dmax_list (distances kdist a (concat (map (\<lambda>j. seg_pairs n (seg j)) js))) (max' g)
       \<and> mean (fold (\<lambda>j. worker_globals kdist n (seg j)) js g) = mean g"
  using assms
proof (induction js arbitrary: g)
  case Nil
  show ?case by (simp add: dmin_list_def dmax_list_def distances_def)
next
  case (Cons j js)
  let ?g = "worker_globals kdist n (seg j) g"
  have f: "min' ?g = dmin_list (distances kdist a (seg_pairs n (seg j))) (min' g)"
    "max' ?g = dmax_list (distances kdist a (seg_pairs n (seg j))) (max' g)"
    "mean ?g = mean g"
    using Cons.prems worker_globals_fields [of g kdist n "seg j"] by simp_all
  have "\<not> dless (Fin DBL_MAX) (min' ?g)" "\<not> dless (max' ?g) (Fin 0)"
    using Cons.prems(1,2) by (simp_all add: f dmin_list_le_max dmax_list_ge_zero)
  from Cons.IH [OF this] Cons.prems(3) show ?case
    by (simp add: f distances_append dmin_list_append dmax_list_append)
qed

lemma chain_pairs: "chain x bs n \<Longrightarrow> concat (map (\<lambda>(s, e). pairs n s e) bs) = pairs n x n"
proof (induction bs arbitrary: x)
  case Nil
  then show ?case by simp
next
  case (Cons b bs)
  obtain s e where b: "b = (s, e)" by (cases b)
  from Cons.prems have c: "s = x" "s \<le> e" "e \<le> n" "chain e bs n" by (simp_all add: b)
  from Cons.IH [OF c(4)] c(1-3) show ?case by (simp add: b pairs_append)
qed

subsection \<open>The segments and the result of a run\<close>

lemma u32_id: "0 \<le> x \<Longrightarrow> x < 2 ^ 32 \<Longrightarrow> u32 x = nat x"
  by (simp add: u32_def)

lemma sdiv_pos: "0 \<le> n \<Longrightarrow> 0 < T \<Longrightarrow> n sdiv T = n div (T::int)"
  by (cases "n = 0") (simp_all add: signed_divide_int_def)

lemma div_bounds:
  assumes "0 \<le> n" "0 < T"
  shows "0 \<le> n div T \<and> T * (n div T) \<le> (n::int)"
proof
  note a = assms
  then show "0 \<le> n div T" by (simp add: pos_imp_zdiv_nonneg_iff)
  have "T * (n div T) + n mod T = n" by simp
  moreover have "0 \<le> n mod T" using a by simp
  ultimately show "T * (n div T) \<le> n" by linarith
qed

lemma segment_fields [simp]:
  "start (segment n a T spt i) = i * spt"
  "end' (segment n a T spt i) = (if i = T - 1 then n else (i + 1) * spt)"
  "arr (segment n a T spt i) = a"
  by (simp_all add: segment_def)

lemma segment_bounds:
  assumes "0 \<le> spt" "T * spt \<le> n" "0 \<le> i" "i < T"
  shows "0 \<le> start (segment n a T spt i)"
    and "start (segment n a T spt i) \<le> end' (segment n a T spt i)"
    and "end' (segment n a T spt i) \<le> n"
proof -
  have a: "0 \<le> i * spt" using assms by simp
  have b: "(i + 1) * spt \<le> T * spt" using assms by (intro mult_right_mono) simp_all
  have c: "i * spt \<le> (i + 1) * spt" using assms by (simp add: algebra_simps)
  have d: "i * spt \<le> n" using assms(2) b c by linarith
  show "0 \<le> start (segment n a T spt i)" using a by simp
  show "start (segment n a T spt i) \<le> end' (segment n a T spt i)"
    using c d by auto
  show "end' (segment n a T spt i) \<le> n" using assms(2) b by simp
qed

lemma segment_chain:
  assumes "0 \<le> spt" "T * spt \<le> n" "n < 2 ^ 32"
  shows "0 \<le> i \<Longrightarrow> i \<le> T \<Longrightarrow>
         chain (u32 (if i = T then n else i * spt))
           (map (\<lambda>j. (u32 (start (segment n a T spt j)), u32 (end' (segment n a T spt j))))
              [i..T - 1])
           (u32 n)"
proof (induction "nat (T - i)" arbitrary: i)
  case 0
  then have "i = T" by simp
  then show ?case by simp
next
  case (Suc k)
  then have lt: "i < T" by simp
  then have up: "[i..T - 1] = i # [i + 1..T - 1]" by (simp add: upto_rec1)
  note sb = segment_bounds [OF assms(1,2) Suc.prems(1) lt, of a]
  have e: "end' (segment n a T spt i) = (if i + 1 = T then n else (i + 1) * spt)"
    by auto
  have n0: "0 \<le> n" using sb by simp
  have conv: "u32 (start (segment n a T spt i)) = nat (start (segment n a T spt i))"
    "u32 (end' (segment n a T spt i)) = nat (end' (segment n a T spt i))"
    "u32 n = nat n"
    using sb assms(3) n0 by (simp_all add: u32_id)
  have ih: "chain (u32 (if i + 1 = T then n else (i + 1) * spt))
           (map (\<lambda>j. (u32 (start (segment n a T spt j)), u32 (end' (segment n a T spt j))))
              [i + 1..T - 1]) (u32 n)"
    using Suc.hyps(2) Suc.prems lt by (intro Suc.hyps(1)) simp_all
  have "chain (u32 (start (segment n a T spt i)))
          ((u32 (start (segment n a T spt i)), u32 (end' (segment n a T spt i)))
           # map (\<lambda>j. (u32 (start (segment n a T spt j)), u32 (end' (segment n a T spt j))))
              [i + 1..T - 1]) (u32 n)"
    using ih sb nat_mono [OF sb(2)] nat_mono [OF sb(3)]
    unfolding e [symmetric] by (simp add: conv del: segment_fields)
  then show ?case using lt by (simp add: up)
qed

lemma thread_data_eq:
  "thread_data kdist n a T g = map (\<lambda>j. worker_data n (segment n a T (n sdiv T) j)) [0..T - 1]"
  by (simp add: thread_data_def create_threads_eq)

lemma seg_pairs_worker_data [simp]: "seg_pairs n (worker_data n d) = seg_pairs n d"
  by (simp add: seg_pairs_def worker_data_def)

lemma all_seg_pairs:
  assumes "0 \<le> n" "n < 2 ^ 32" "1 \<le> T"
  shows "concat (map (\<lambda>j. seg_pairs n (segment n a T (n div T) j)) [0..T - 1])
           = pairs (nat n) 0 (nat n)"
proof -
  note d = div_bounds [of n T]
  have "chain (u32 (if 0 = T then n else 0 * (n div T)))
           (map (\<lambda>j. (u32 (start (segment n a T (n div T) j)), u32 (end' (segment n a T (n div T) j))))
              [0..T - 1]) (u32 n)"
    using assms d by (intro segment_chain) simp_all
  then have "chain 0 (map (\<lambda>j. (u32 (start (segment n a T (n div T) j)), u32 (end' (segment n a T (n div T) j))))
              [0..T - 1]) (nat n)"
    using assms by (simp add: u32_id)
  from chain_pairs [OF this] show ?thesis
    using assms by (simp add: comp_def seg_pairs_def u32_id del: segment_fields)
qed

lemma fold_dadd_zero:
  "\<forall>d \<in> set data. data_sum d = Fin 0 \<Longrightarrow> fold (\<lambda>d s. dadd s (data_sum d)) data (Fin 0) = Fin 0"
  by (induction data) simp_all

lemma length_thread_data: "length (thread_data kdist n a T g) = nat T"
  by (simp add: thread_data_eq)

lemma sum_list_length_concat: "sum_list (map (\<lambda>j. length (f j)) js) = length (concat (map f js))"
  by (induction js) simp_all

lemma totals_eq:
  assumes "0 \<le> n" "n < 2 ^ 32" "1 \<le> T"
  shows "totals kdist n a T g = (Fin 0, nat n * (nat n - 1) div 2)"
proof -
  let ?data = "thread_data kdist n a T g"
  have sd: "n sdiv T = n div T" using assms by (simp add: sdiv_pos)
  have z: "\<forall>d \<in> set ?data. data_sum d = Fin 0"
    by (auto simp: thread_data_eq worker_data_def)
  have "sum_list (map data_count ?data)
          = length (concat (map (\<lambda>j. seg_pairs n (segment n a T (n div T) j)) [0..T - 1]))"
    by (simp add: thread_data_eq sd comp_def worker_data_def sum_list_length_concat)
  also have "\<dots> = nat n * (nat n - 1) div 2"
    using assms by (simp add: all_seg_pairs length_pairs_all)
  finally have c: "sum_list (map data_count ?data) = nat n * (nat n - 1) div 2" .
  have "accumulate ?data T 0 (Fin 0, 0) =
          (fold (\<lambda>d s. dadd s (data_sum d)) (drop (nat 0) ?data) (Fin 0),
           0 + sum_list (map data_count (drop (nat 0) ?data)))"
    using assms(3) by (intro accumulate_eq) (simp_all add: length_thread_data)
  then show ?thesis
    by (simp add: totals_def fold_dadd_zero [OF z] c)
qed

lemma run_unfold:
  "T \<noteq> 0 \<Longrightarrow>
   determineAverageAngularDistance kdist n a T g =
     Inr ((fold (\<lambda>j. worker_globals kdist n (segment n a T (n sdiv T) j)) [0..T - 1] g)
            \<lparr>mean := ddiv_count (fst (totals kdist n a T g)) (snd (totals kdist n a T g))\<rparr>)"
  by (simp add: determineAverageAngularDistance_def create_threads_eq totals_def thread_data_eq
      split: prod.splits)

lemma run_result:
  assumes "0 \<le> n" "n < 2 ^ 32" "1 \<le> T"
    and "\<not> dless (Fin DBL_MAX) (min' g)" "\<not> dless (max' g) (Fin 0)"
  shows "determineAverageAngularDistance kdist n a T g =
           Inr \<lparr>min' = dmin_list (distances kdist a (pairs (nat n) 0 (nat n))) (min' g),
                max' = dmax_list (distances kdist a (pairs (nat n) 0 (nat n))) (max' g),
                mean = ddiv_count (Fin 0) (nat n * (nat n - 1) div 2)\<rparr>"
proof -
  let ?g = "fold (\<lambda>j. worker_globals kdist n (segment n a T (n div T) j)) [0..T - 1] g"
  have sd: "n sdiv T = n div T" using assms by (simp add: sdiv_pos)
  have "min' ?g = dmin_list (distances kdist a
                    (concat (map (\<lambda>j. seg_pairs n (segment n a T (n div T) j)) [0..T - 1]))) (min' g)
      \<and> max' ?g = dmax_list (distances kdist a
                    (concat (map (\<lambda>j. seg_pairs n (segment n a T (n div T) j)) [0..T - 1]))) (max' g)
      \<and> mean ?g = mean g"
    using assms(4,5) by (intro fold_worker_globals) simp_all
  then have f: "min' ?g = dmin_list (distances kdist a (pairs (nat n) 0 (nat n))) (min' g)"
    "max' ?g = dmax_list (distances kdist a (pairs (nat n) 0 (nat n))) (max' g)"
    using assms(1-3) by (simp_all add: all_seg_pairs)
  have "T \<noteq> 0" using assms(3) by simp
  from run_unfold [OF this, of kdist n a g] show ?thesis
    using assms(1-3) by (simp add: totals_eq sd f)
qed


lemma thread_data_nth:
  assumes "k < nat T"
  shows "thread_data kdist n a T g ! k = worker_data n (segment n a T (n sdiv T) (int k))"
  using assms by (simp add: thread_data_eq)

lemma worker_data_fields [simp]:
  "start (worker_data n d) = start d" "end' (worker_data n d) = end' d"
  "arr (worker_data n d) = arr d" "data_sum (worker_data n d) = Fin 0"
  "data_count (worker_data n d) = length (seg_pairs n d)"
  by (simp_all add: worker_data_def)

lemma segments_cover:
  assumes "0 \<le> n" "1 \<le> T"
  shows "(\<Union>j \<in> {0..T - 1}. {start (segment n a T (n div T) j)..<end' (segment n a T (n div T) j)})
           = {0..<n}"
proof (intro equalityI subsetI)
  fix x
  assume "x \<in> (\<Union>j \<in> {0..T - 1}. {start (segment n a T (n div T) j)..<end' (segment n a T (n div T) j)})"
  then obtain j where j: "0 \<le> j" "j < T"
    and x: "start (segment n a T (n div T) j) \<le> x" "x < end' (segment n a T (n div T) j)"
    by auto
  note d = div_bounds [of n T]
  have "0 \<le> start (segment n a T (n div T) j)" "end' (segment n a T (n div T) j) \<le> n"
    using assms d j by (intro segment_bounds; simp)+
  with x show "x \<in> {0..<n}" by simp
next
  fix x
  assume "x \<in> {0..<n}"
  then have x: "0 \<le> x" "x < n" by simp_all
  let ?q = "n div T"
  note d = div_bounds [of n T]
  show "x \<in> (\<Union>j \<in> {0..T - 1}. {start (segment n a T ?q j)..<end' (segment n a T ?q j)})"
  proof (cases "(T - 1) * ?q \<le> x")
    case True
    have "T - 1 \<in> {0..T - 1}" using assms by simp
    moreover have "x \<in> {start (segment n a T ?q (T - 1))..<end' (segment n a T ?q (T - 1))}"
      using True x by simp
    ultimately show ?thesis by blast
  next
    case False
    then have lt: "x < (T - 1) * ?q" by simp
    have q: "0 < ?q"
    proof (rule ccontr)
      assume "\<not> 0 < ?q"
      with d assms have "?q = 0" by simp
      with lt x show False by simp
    qed
    let ?k = "x div ?q"
    have k0: "0 \<le> ?k" using x q by (simp add: pos_imp_zdiv_nonneg_iff)
    have lo: "?k * ?q \<le> x"
      using q div_bounds [of x ?q] x by (simp add: mult.commute)
    have m: "x mod ?q < ?q" using q by simp
    have dm: "?k * ?q + x mod ?q = x" by (rule div_mult_mod_eq)
    have e: "(?k + 1) * ?q = ?k * ?q + ?q" by (simp add: algebra_simps)
    have hi: "x < (?k + 1) * ?q" using m dm e by linarith
    have "?k * ?q < (T - 1) * ?q" using lo lt by simp
    then have kT: "?k < T - 1" using q by (simp add: mult_less_cancel_right)
    have "?k \<in> {0..T - 1}" using k0 kT by simp
    moreover have "x \<in> {start (segment n a T ?q ?k)..<end' (segment n a T ?q ?k)}"
      using lo hi kT by simp
    ultimately show ?thesis by blast
  qed
qed

lemma segments_disjoint:
  assumes "0 \<le> n" "1 \<le> T" "0 \<le> k" "k < l" "l < T"
  shows "{start (segment n a T (n div T) k)..<end' (segment n a T (n div T) k)}
         \<inter> {start (segment n a T (n div T) l)..<end' (segment n a T (n div T) l)} = {}"
proof -
  note d = div_bounds [of n T]
  have "(k + 1) * (n div T) \<le> l * (n div T)"
    using assms d by (intro mult_right_mono) simp_all
  then have "end' (segment n a T (n div T) k) \<le> start (segment n a T (n div T) l)"
    using assms by simp
  then show ?thesis by auto
qed


lemma INT_MAX_u32: "n \<le> INT_MAX \<Longrightarrow> n < 2 ^ 32"
  by (simp add: INT_MAX_def)

lemma totals_snd:
  assumes "1 \<le> T"
  shows "snd (totals kdist n a T g) = sum_list (map data_count (thread_data kdist n a T g))"
proof -
  let ?data = "thread_data kdist n a T g"
  have "accumulate ?data T 0 (Fin 0, 0) =
          (fold (\<lambda>d s. dadd s (data_sum d)) (drop (nat 0) ?data) (Fin 0),
           0 + sum_list (map data_count (drop (nat 0) ?data)))"
    using assms by (intro accumulate_eq) (simp_all add: length_thread_data)
  then show ?thesis by (simp add: totals_def)
qed

lemma set_seg_pairs:
  assumes "0 \<le> start d" "start d \<le> end' d" "end' d \<le> n" "n < 2 ^ 32"
  shows "set (seg_pairs n d) = {(i, j). start d \<le> int i \<and> int i < end' d \<and> i < j \<and> int j < n}"
proof -
  have "u32 (start d) = nat (start d)" "u32 (end' d) = nat (end' d)" "u32 n = nat n"
    using assms by (simp_all add: u32_id)
  then show ?thesis
    by (auto simp: seg_pairs_def set_pairs)
qed

lemma concat_seg_pairs:
  assumes "0 \<le> n" "n < 2 ^ 32" "1 \<le> T"
  shows "concat (map (seg_pairs n) (thread_data kdist n a T g)) = pairs (nat n) 0 (nat n)"
  using assms all_seg_pairs [OF assms, of a]
  by (simp add: thread_data_eq sdiv_pos comp_def)

text \<open>
  The workers may reach the locked update in any order: two updates commute.
\<close>

lemma dmin_list_not_NaN: "m \<noteq> NaN \<Longrightarrow> dmin_list ds m \<noteq> NaN"
  by (induction ds arbitrary: m) (simp_all add: dmin_list_def upd_min_not_NaN)

lemma dmax_list_not_NaN: "m \<noteq> NaN \<Longrightarrow> dmax_list ds m \<noteq> NaN"
  by (induction ds arbitrary: m) (simp_all add: dmax_list_def upd_max_not_NaN)

lemma upd_min_commute:
  "a \<noteq> NaN \<Longrightarrow> b \<noteq> NaN \<Longrightarrow> upd_min (upd_min g a) b = upd_min (upd_min g b) a"
  by (cases g; cases a; cases b) (auto simp: upd_min_def)

lemma upd_max_commute:
  "a \<noteq> NaN \<Longrightarrow> b \<noteq> NaN \<Longrightarrow> upd_max (upd_max g a) b = upd_max (upd_max g b) a"
  by (cases g; cases a; cases b) (auto simp: upd_max_def)

lemma worker_globals_commute:
  "worker_globals kdist n d (worker_globals kdist n d' g)
     = worker_globals kdist n d' (worker_globals kdist n d g)"
proof -
  have "dmin_list (distances kdist (arr d) (seg_pairs n d)) (Fin DBL_MAX) \<noteq> NaN"
    "dmin_list (distances kdist (arr d') (seg_pairs n d')) (Fin DBL_MAX) \<noteq> NaN"
    "dmax_list (distances kdist (arr d) (seg_pairs n d)) (Fin 0) \<noteq> NaN"
    "dmax_list (distances kdist (arr d') (seg_pairs n d')) (Fin 0) \<noteq> NaN"
    by (simp_all add: dmin_list_not_NaN dmax_list_not_NaN)
  then show ?thesis
    by (simp add: worker_globals_def upd_min_commute upd_max_commute)
qed

subsection \<open>Finite distances\<close>

lemma DBL_MAX_ge_180: "180 \<le> DBL_MAX"
proof -
  have "(2::real) ^ 8 \<le> 2 ^ 971" by (rule power_increasing) simp_all
  moreover have "(1::real) \<le> 2 ^ 53 - 1" by simp
  ultimately have "1 * (2::real) ^ 8 \<le> (2 ^ 53 - 1) * 2 ^ 971"
    by (intro mult_mono) simp_all
  then show ?thesis by (simp add: DBL_MAX_def)
qed

lemma clamp_range: "- 1 \<le> clamp c" "clamp c \<le> 1"
  by (simp_all add: clamp_def)

lemma degrees_arccos_range:
  assumes "- 1 \<le> y" "y \<le> 1"
  shows "0 \<le> degrees (arccos y)" "degrees (arccos y) \<le> 180"
proof -
  have "0 \<le> arccos y" "arccos y \<le> pi" using assms by (simp_all add: arccos_lbound arccos_ubound)
  then show "0 \<le> degrees (arccos y)" "degrees (arccos y) \<le> 180"
    by (simp_all add: degrees_def field_simps)
qed

lemma kernel_range:
  "\<exists>x. calculateAngularDistance (Fin ra1) (Fin dec1) (Fin ra2) (Fin dec2) = Fin x
       \<and> 0 \<le> x \<and> x \<le> 180"
  by (simp add: degrees_arccos_range clamp_range)

lemma dmin_list_Fin: "dmin_list (map Fin xs) (Fin m) = Fin (fold min xs m)"
  by (induction xs arbitrary: m) (auto simp: dmin_list_def upd_min_def min_def)

lemma dmax_list_Fin: "dmax_list (map Fin xs) (Fin m) = Fin (fold max xs m)"
  by (induction xs arbitrary: m) (auto simp: dmax_list_def upd_max_def max_def)

lemma fold_min_Min: "fold min xs (m::real) = Min (insert m (set xs))"
  using Min.set_eq_fold [of m xs] by simp

lemma fold_max_Max: "fold max xs (m::real) = Max (insert m (set xs))"
  using Max.set_eq_fold [of m xs] by simp

lemma Min_insert_top:
  assumes "finite A" "A \<noteq> {}" "\<forall>x \<in> A. x \<le> (m::real)"
  shows "Min (insert m A) = Min A"
proof -
  have "Min A \<in> A" using assms(1,2) by (rule Min_in)
  then have "Min A \<le> m" using assms(3) by blast
  then show ?thesis using assms(1,2) by (simp add: min_absorb2)
qed

lemma Max_insert_bot:
  assumes "finite A" "A \<noteq> {}" "\<forall>x \<in> A. (m::real) \<le> x"
  shows "Max (insert m A) = Max A"
proof -
  have "Max A \<in> A" using assms(1,2) by (rule Max_in)
  then have "m \<le> Max A" using assms(3) by blast
  then show ?thesis using assms(1,2) by (simp add: max_absorb2)
qed

lemma set_distances:
  "set (distances kdist a (pairs n 0 n)) = {distance kdist a i j | i j. i < j \<and> j < n}"
  by (auto simp: distances_def set_pairs)

lemma min_max_finite:
  assumes "2 \<le> n"
    and fin: "\<forall>i j. i < j \<and> j < n \<longrightarrow> (\<exists>x. distance kdist a i j = Fin x \<and> 0 \<le> x \<and> x \<le> DBL_MAX)"
  shows "dmin_list (distances kdist a (pairs n 0 n)) (Fin DBL_MAX)
           = Fin (Min {fin_val (distance kdist a i j) | i j. i < j \<and> j < n})"
    and "dmax_list (distances kdist a (pairs n 0 n)) (Fin 0)
           = Fin (Max {fin_val (distance kdist a i j) | i j. i < j \<and> j < n})"
proof -
  let ?ds = "distances kdist a (pairs n 0 n)"
  let ?xs = "map fin_val ?ds"
  let ?S = "{fin_val (distance kdist a i j) | i j. i < j \<and> j < n}"
  have all: "\<forall>d \<in> set ?ds. \<exists>x. d = Fin x \<and> 0 \<le> x \<and> x \<le> DBL_MAX"
    using fin by (auto simp: set_distances)
  then have "map Fin ?xs = ?ds"
    by (intro map_idI [THEN trans [OF map_map]]) auto
  then have ds: "?ds = map Fin ?xs" by simp
  have S: "set ?xs = ?S" by (auto simp: set_distances)
  have "(0, 1) \<in> set (pairs n 0 n)" using assms(1) by (simp add: set_pairs)
  then have ne: "set ?xs \<noteq> {}" by (auto simp: distances_def)
  have rng: "\<forall>x \<in> set ?xs. 0 \<le> x \<and> x \<le> DBL_MAX"
    using all by fastforce
  have "dmin_list ?ds (Fin DBL_MAX) = Fin (Min (insert DBL_MAX (set ?xs)))"
    by (subst ds) (simp only: dmin_list_Fin fold_min_Min)
  also have "Min (insert DBL_MAX (set ?xs)) = Min (set ?xs)"
    using ne rng by (intro Min_insert_top) simp_all
  finally show "dmin_list ?ds (Fin DBL_MAX) = Fin (Min ?S)" by (simp only: S)
  have "dmax_list ?ds (Fin 0) = Fin (Max (insert 0 (set ?xs)))"
    by (subst ds) (simp only: dmax_list_Fin fold_max_Max)
  also have "Max (insert 0 (set ?xs)) = Max (set ?xs)"
    using ne rng by (intro Max_insert_bot) simp_all
  finally show "dmax_list ?ds (Fin 0) = Fin (Max ?S)" by (simp only: S)
qed

lemma initial_globals_ok:
  "\<not> dless (Fin DBL_MAX) (min' initial_globals)" "\<not> dless (max' initial_globals) (Fin 0)"
  by (simp_all add: initial_globals_def)

lemma run_initial:
  assumes "0 \<le> n" "n \<le> INT_MAX" "1 \<le> T"
  shows "determineAverageAngularDistance kdist n a T initial_globals =
           Inr \<lparr>min' = dmin_list (distances kdist a (pairs (nat n) 0 (nat n))) (Fin DBL_MAX),
                max' = dmax_list (distances kdist a (pairs (nat n) 0 (nat n))) (Fin 0),
                mean = ddiv_count (Fin 0) (nat n * (nat n - 1) div 2)\<rparr>"
  using run_result [OF assms(1) INT_MAX_u32 [OF assms(2)] assms(3) initial_globals_ok, of kdist a]
  by (simp add: initial_globals_def)

subsection \<open>The set of the pair distances\<close>

lemma pair_set_image:
  "{f i j | i j. i < j \<and> j < n} = (\<lambda>(i, j). f i j) ` set (pairs n 0 n)"
  by (auto simp: set_pairs)

subsection \<open>Segments and counts together\<close>

lemma segments_all:
  assumes "0 \<le> n" "1 \<le> T"
  shows "let ds = thread_data kdist n a T g in
           length ds = nat T
         \<and> (\<forall>k < nat T. start (ds ! k) = int k * (n div T)
               \<and> end' (ds ! k) = (if int k = T - 1 then n else (int k + 1) * (n div T))
               \<and> start (ds ! k) \<le> end' (ds ! k))
         \<and> (\<forall>k l. k < l \<and> l < nat T \<longrightarrow>
               {start (ds ! k)..<end' (ds ! k)} \<inter> {start (ds ! l)..<end' (ds ! l)} = {})
         \<and> (\<Union>d \<in> set ds. {start d..<end' d}) = {0..<n}
         \<and> end' (last ds) = n"
proof -
  let ?ds = "thread_data kdist n a T g"
  let ?q = "n div T"
  have sd: "n sdiv T = ?q" using assms by (simp add: sdiv_pos)
  note d = div_bounds [of n T]
  have nth: "?ds ! k = worker_data n (segment n a T ?q (int k))" if "k < nat T" for k
    using that by (simp add: thread_data_nth sd)
  have len: "length ?ds = nat T" by (rule length_thread_data)
  have fields: "start (?ds ! k) = int k * ?q
      \<and> end' (?ds ! k) = (if int k = T - 1 then n else (int k + 1) * ?q)
      \<and> start (?ds ! k) \<le> end' (?ds ! k)" if "k < nat T" for k
  proof -
    have "start (segment n a T ?q (int k)) \<le> end' (segment n a T ?q (int k))"
      using assms d that by (intro segment_bounds) simp_all
    then show ?thesis using that by (simp add: nth)
  qed
  have disj: "{start (?ds ! k)..<end' (?ds ! k)} \<inter> {start (?ds ! l)..<end' (?ds ! l)} = {}"
    if "k < l" "l < nat T" for k l
  proof -
    have "{start (segment n a T ?q (int k))..<end' (segment n a T ?q (int k))}
         \<inter> {start (segment n a T ?q (int l))..<end' (segment n a T ?q (int l))} = {}"
      using assms that by (intro segments_disjoint) simp_all
    then show ?thesis using that by (simp add: nth del: segment_fields)
  qed
  have cover: "(\<Union>d \<in> set ?ds. {start d..<end' d}) = {0..<n}"
    using segments_cover [OF assms, of a] by (simp add: thread_data_eq sd)
  have ne: "?ds \<noteq> []" using len assms by auto
  have "last ?ds = ?ds ! (nat T - 1)" using ne len by (simp add: last_conv_nth)
  moreover have "end' (?ds ! (nat T - 1)) = n"
    using fields [of "nat T - 1"] assms by (simp add: of_nat_diff)
  ultimately have lst: "end' (last ?ds) = n" by simp
  show ?thesis
    unfolding Let_def using len fields disj cover lst by blast
qed

lemma counts_all:
  assumes "0 \<le> n" "n \<le> INT_MAX" "1 \<le> T"
  shows "let ds = thread_data kdist n a T g in
           snd (totals kdist n a T g) = sum_list (map data_count ds)
         \<and> snd (totals kdist n a T g) = nat n * (nat n - 1) div 2
         \<and> (\<forall>d \<in> set ds.
               (\<forall>s. outer_loop kdist (u32 n) (arr d) (u32 (start d)) (u32 (end' d)) s
                      = fold (\<lambda>(i, j). pair_step kdist (arr d) i j) (seg_pairs n d) s)
               \<and> data_count d = length (seg_pairs n d)
               \<and> set (seg_pairs n d)
                   = {(i, j). start d \<le> int i \<and> int i < end' d \<and> i < j \<and> int j < n})
         \<and> distinct (concat (map (seg_pairs n) ds))
         \<and> set (concat (map (seg_pairs n) ds)) = {(i, j). i < j \<and> j < nat n}"
proof -
  let ?ds = "thread_data kdist n a T g"
  have n32: "n < 2 ^ 32" using assms(2) by (rule INT_MAX_u32)
  have sd: "n sdiv T = n div T" using assms by (simp add: sdiv_pos)
  note dv = div_bounds [of n T]
  have c1: "snd (totals kdist n a T g) = sum_list (map data_count ?ds)"
    using assms(3) by (rule totals_snd)
  have c2: "snd (totals kdist n a T g) = nat n * (nat n - 1) div 2"
    using assms(1,3) n32 by (simp add: totals_eq)
  have c3: "(\<forall>s. outer_loop kdist (u32 n) (arr d) (u32 (start d)) (u32 (end' d)) s
                      = fold (\<lambda>(i, j). pair_step kdist (arr d) i j) (seg_pairs n d) s)
               \<and> data_count d = length (seg_pairs n d)
               \<and> set (seg_pairs n d)
                   = {(i, j). start d \<le> int i \<and> int i < end' d \<and> i < j \<and> int j < n}"
    if "d \<in> set ?ds" for d
  proof -
    from that obtain j where j: "0 \<le> j" "j < T"
      and d: "d = worker_data n (segment n a T (n div T) j)"
      by (auto simp: thread_data_eq sd)
    have b: "0 \<le> start d" "start d \<le> end' d" "end' d \<le> n"
      using segment_bounds [of "n div T" T n j a] assms dv j by (simp_all add: d)
    have "set (seg_pairs n d)
            = {(i, j). start d \<le> int i \<and> int i < end' d \<and> i < j \<and> int j < n}"
      using b n32 by (rule set_seg_pairs)
    moreover have "data_count d = length (seg_pairs n d)" by (simp add: d)
    ultimately show ?thesis by (simp add: outer_loop_fold seg_pairs_def)
  qed
  have cc: "concat (map (seg_pairs n) ?ds) = pairs (nat n) 0 (nat n)"
    using assms(1) n32 assms(3) by (rule concat_seg_pairs)
  have c4: "distinct (concat (map (seg_pairs n) ?ds))"
    by (simp only: cc distinct_pairs)
  have c5: "set (concat (map (seg_pairs n) ?ds)) = {(i, j). i < j \<and> j < nat n}"
    by (auto simp only: cc set_pairs)
  show ?thesis
    unfolding Let_def using c1 c2 c3 c4 c5 by blast
qed

subsection \<open>The loader and a thread count below one\<close>

lemma store_columns_Some:
  "column + length toks \<le> 3 \<Longrightarrow> \<exists>s'. store_columns s column toks = Some s'"
  by (induction toks arbitrary: s column) auto

lemma read_lines_ok:
  assumes "\<forall>l \<in> set ls. length l \<le> 3" "c + length ls \<le> length sa" "length sa < 2 ^ 32"
  shows "\<exists>sa'. read_lines sa c ls = Inr (sa', c + length ls) \<and> length sa' = length sa
           \<and> (\<forall>k. k < c \<or> c + length ls \<le> k \<longrightarrow> sa' ! k = sa ! k)
           \<and> (\<forall>i < length ls. store_columns (sa ! (c + i)) 0 (ls ! i) = Some (sa' ! (c + i)))"
  using assms
proof (induction ls arbitrary: sa c)
  case Nil
  show ?case by simp
next
  case (Cons l ls)
  from Cons.prems have c: "c < length sa" "(c + 1) mod 2 ^ 32 = c + 1" by simp_all
  from Cons.prems(1) obtain s where s: "store_columns (sa ! c) 0 l = Some s"
    using store_columns_Some [of 0 l "sa ! c"] by auto
  let ?sa = "sa[c := s]"
  have step: "read_lines sa c (l # ls) = read_lines ?sa (c + 1) ls"
  proof (cases "l = []")
    case True
    with s have "s = sa ! c" by simp
    then show ?thesis using True c by simp
  next
    case False
    then show ?thesis using c s by simp
  qed
  have "\<exists>sa'. read_lines ?sa (c + 1) ls = Inr (sa', c + 1 + length ls) \<and> length sa' = length ?sa
           \<and> (\<forall>k. k < c + 1 \<or> c + 1 + length ls \<le> k \<longrightarrow> sa' ! k = ?sa ! k)
           \<and> (\<forall>i < length ls. store_columns (?sa ! (c + 1 + i)) 0 (ls ! i) = Some (sa' ! (c + 1 + i)))"
    using Cons.prems by (intro Cons.IH) simp_all
  then obtain sa' where ih: "read_lines ?sa (c + 1) ls = Inr (sa', c + 1 + length ls)
           \<and> length sa' = length ?sa
           \<and> (\<forall>k. k < c + 1 \<or> c + 1 + length ls \<le> k \<longrightarrow> sa' ! k = ?sa ! k)
           \<and> (\<forall>i < length ls. store_columns (?sa ! (c + 1 + i)) 0 (ls ! i) = Some (sa' ! (c + 1 + i)))"
    by (rule exE)
  from ih have r: "read_lines ?sa (c + 1) ls = Inr (sa', c + 1 + length ls)" by (rule conjunct1)
  from ih have len: "length sa' = length sa" by simp
  from ih have same: "k < c + 1 \<or> c + 1 + length ls \<le> k \<Longrightarrow> sa' ! k = ?sa ! k" for k
    by blast
  from ih have st: "i < length ls \<Longrightarrow>
               store_columns (?sa ! (c + 1 + i)) 0 (ls ! i) = Some (sa' ! (c + 1 + i))" for i
    by blast
  have a: "read_lines sa c (l # ls) = Inr (sa', c + length (l # ls))"
    using step r by simp
  have b: "sa' ! k = sa ! k" if "k < c \<or> c + length (l # ls) \<le> k" for k
    using same [of k] that by auto
  have d: "store_columns (sa ! (c + i)) 0 ((l # ls) ! i) = Some (sa' ! (c + i))"
    if "i < length (l # ls)" for i
  proof (cases i)
    case 0
    have "sa' ! c = ?sa ! c" using same [of c] by simp
    then show ?thesis using 0 s c by simp
  next
    case (Suc i')
    then show ?thesis using st [of i'] that by simp
  qed
  show ?case using a b d len by blast
qed

lemma run_negative:
  assumes "T < 0"
  shows "determineAverageAngularDistance kdist n a T g = Inr (g\<lparr>mean := NaN\<rparr>)"
proof -
  have "thread_data kdist n a T g = []" using assms by (simp add: thread_data_eq)
  then have "totals kdist n a T g = (Fin 0, 0)"
    using assms by (simp add: totals_def) (subst accumulate.simps, simp)
  then show ?thesis using assms by (simp add: run_unfold)
qed

lemma length_star_array: "length star_array = 30000"
  by (simp add: star_array_def NUM_STARS_def)

lemma star_array_nth: "k < 30000 \<Longrightarrow> star_array ! k = zero_Star"
  by (simp add: star_array_def NUM_STARS_def)

lemma load_short:
  assumes "length lines \<le> 30000" "\<forall>l \<in> set lines. length l \<le> 3"
  shows "\<exists>sa. read_lines star_array 0 lines = Inr (sa, length lines) \<and> length sa = 30000
           \<and> (\<forall>k. length lines \<le> k \<and> k < 30000 \<longrightarrow> sa ! k = zero_Star)
           \<and> (\<forall>i < length lines. store_columns zero_Star 0 (lines ! i) = Some (sa ! i))"
proof -
  have "\<exists>sa'. read_lines star_array 0 lines = Inr (sa', 0 + length lines)
           \<and> length sa' = length star_array
           \<and> (\<forall>k. k < 0 \<or> 0 + length lines \<le> k \<longrightarrow> sa' ! k = star_array ! k)
           \<and> (\<forall>i < length lines. store_columns (star_array ! (0 + i)) 0 (lines ! i) = Some (sa' ! (0 + i)))"
    using assms by (intro read_lines_ok) (simp_all add: length_star_array)
  then obtain sa where sa: "read_lines star_array 0 lines = Inr (sa, 0 + length lines)
           \<and> length sa = length star_array
           \<and> (\<forall>k. k < 0 \<or> 0 + length lines \<le> k \<longrightarrow> sa ! k = star_array ! k)
           \<and> (\<forall>i < length lines. store_columns (star_array ! (0 + i)) 0 (lines ! i) = Some (sa ! (0 + i)))"
    by (rule exE)
  have a: "read_lines star_array 0 lines = Inr (sa, length lines)" using sa by simp
  have b: "length sa = 30000" using sa by (simp add: length_star_array)
  have c: "sa ! k = zero_Star" if "length lines \<le> k \<and> k < 30000" for k
    using sa that by (simp add: star_array_nth)
  have d: "store_columns zero_Star 0 (lines ! i) = Some (sa ! i)" if "i < length lines" for i
  proof -
    have "i < 30000" using that assms(1) by simp
    then have z: "star_array ! i = zero_Star" by (rule star_array_nth)
    from sa that have "store_columns (star_array ! (0 + i)) 0 (lines ! i) = Some (sa ! (0 + i))"
      by blast
    then show ?thesis by (simp add: z)
  qed
  show ?thesis using a b c d by blast
qed

lemma main_eq:
  "read_lines star_array 0 lines = Inr (sa, c) \<Longrightarrow>
   main kdist lines T = determineAverageAngularDistance kdist NUM_STARS sa T initial_globals"
  by (simp add: main_def)

lemma NUM_STARS_bounds: "0 \<le> NUM_STARS" "NUM_STARS \<le> INT_MAX" "nat NUM_STARS = 30000"
  by (simp_all add: NUM_STARS_def INT_MAX_def)

subsection \<open>The spec's kernel on the equator, and the mean\<close>

lemma degrees_radians [simp]: "degrees (radians x) = x"
  by (simp add: degrees_def radians_def)

lemma equator_distance:
  assumes "a1 \<le> a2" "a2 - a1 \<le> 180"
  shows "calculateAngularDistance (Fin a1) (Fin 0) (Fin a2) (Fin 0) = Fin (a2 - a1)"
proof -
  let ?x = "radians (a2 - a1)"
  have "(a2 - a1) * pi \<le> 180 * pi" using assms(2) by (intro mult_right_mono) simp_all
  then have x: "0 \<le> ?x" "?x \<le> pi" using assms(1) by (simp_all add: radians_def)
  have "radians a1 - radians a2 = - ?x" by (simp add: radians_def field_simps)
  then have "cosTheta a1 0 a2 0 = cos ?x" by (simp add: cosTheta_def radians_def)
  moreover have "clamp (cos ?x) = cos ?x" by (simp add: clamp_def)
  moreover have "arccos (cos ?x) = ?x" using x by (rule arccos_cos)
  ultimately show ?thesis by simp
qed

lemma distance_range:
  assumes "finite_coords (a ! i)" "finite_coords (a ! j)"
  shows "\<exists>x. distance calculateAngularDistance a i j = Fin x \<and> 0 \<le> x \<and> x \<le> 180"
  using assms kernel_range by (auto simp: finite_coords_def distance_def)

lemma sum_list_pos:
  "\<forall>x \<in> set xs. (0::real) \<le> x \<Longrightarrow> y \<in> set xs \<Longrightarrow> 0 < y \<Longrightarrow> 0 < sum_list xs"
proof (induction xs)
  case Nil
  then show ?case by simp
next
  case (Cons x xs)
  have nn: "0 \<le> sum_list xs" using Cons.prems(1) by (intro sum_list_nonneg) simp
  show ?case
  proof (cases "y = x")
    case True
    with Cons.prems nn show ?thesis by simp
  next
    case False
    with Cons have "0 < sum_list xs" by simp
    moreover have "0 \<le> x" using Cons.prems(1) by simp
    ultimately show ?thesis by simp
  qed
qed

lemma mean_zero:
  assumes "2 \<le> n" "n \<le> INT_MAX" "1 \<le> T"
  shows "\<exists>g. determineAverageAngularDistance kdist n a T initial_globals = Inr g \<and> mean g = Fin 0"
proof -
  have n: "0 \<le> n" using assms(1) by simp
  have "2 \<le> nat n" using assms(1) by simp
  then have "2 * 1 \<le> nat n * (nat n - 1)" by (intro mult_le_mono) simp_all
  then have "0 < nat n * (nat n - 1) div 2" by simp
  then show ?thesis using run_initial [OF n assms(2,3), of kdist a] by simp
qed

text \<open>Rounding with and without the clamp.\<close>

lemma rounded_exact:
  "rounded_distance (\<lambda>x. x) ra1 dec1 ra2 dec2
     = calculateAngularDistance (Fin ra1) (Fin dec1) (Fin ra2) (Fin dec2)"
  by (simp add: rounded_distance_def acos_double_def clamp_range)

lemma cosTheta_same: "cosTheta ra dec ra dec = 1"
proof -
  have "sin (radians dec) * sin (radians dec) + cos (radians dec) * cos (radians dec) = 1"
    using sin_cos_squared_add [of "radians dec"] by (simp add: power2_eq_square)
  then show ?thesis by (simp add: cosTheta_def)
qed

lemma unclamped_identical_points:
  "unclamped_distance (\<lambda>x. x * (1 + 1 / 2 ^ 52)) 10 20 10 20 = NaN"
  by (simp add: unclamped_distance_def acos_double_def cosTheta_same)

text \<open>
  Whatever the file holds, \<open>main\<close> with \<open>T \<ge> 1\<close> publishes a mean of 0.
\<close>

lemma main_mean_zero:
  assumes "length lines \<le> 30000" "\<forall>l \<in> set lines. length l \<le> 3" "1 \<le> T"
  shows "\<exists>g. main kdist lines T = Inr g \<and> mean g = Fin 0"
proof -
  from load_short [OF assms(1,2)] obtain sa
    where sa: "read_lines star_array 0 lines = Inr (sa, length lines)" by blast
  have h: "2 \<le> NUM_STARS" "NUM_STARS \<le> INT_MAX"
    by (simp_all add: NUM_STARS_def INT_MAX_def)
  from mean_zero [OF h assms(3), of kdist sa] main_eq [OF sa, of kdist T]
  show ?thesis by simp
qed

subsection \<open>The two input files\<close>

lemma load_example: "read_lines star_array 0 example_lines = Inr (example_array, 3)"
proof -
  have e: "example_array
           = star_array[0 := star_at 1 0 0, Suc 0 := star_at 2 0 90, Suc (Suc 0) := star_at 3 180 0]"
    by (simp add: example_array_def numeral_2_eq_2)
  show ?thesis
    unfolding e
    by (simp add: example_lines_def tok_def star_array_def NUM_STARS_def zero_Star_def
        star_at_def)
qed

lemma length_example_array: "length example_array = 30000"
  by (simp add: example_array_def length_star_array)

lemma example_array_nth:
  "example_array ! 0 = star_at 1 0 0" "example_array ! Suc 0 = star_at 2 0 90"
  "example_array ! 2 = star_at 3 180 0"
  by (simp_all add: example_array_def length_star_array)

lemma finite_coords_simps [simp]: "finite_coords (star_at k ra dec)" "finite_coords zero_Star"
  by (simp_all add: finite_coords_def star_at_def zero_Star_def)

lemma example_array_finite: "k < 30000 \<Longrightarrow> finite_coords (example_array ! k)"
  by (simp add: example_array_def nth_list_update length_star_array star_array_nth)

lemma example_array_distance:
  "distance calculateAngularDistance example_array 0 (Suc 0) = Fin 90"
  by (simp add: distance_def example_array_nth star_at_def cosTheta_def radians_def
      degrees_def clamp_def)

lemma example_array_mean_pos:
  "0 < sum_list (map fin_val (distances calculateAngularDistance example_array
         (pairs 30000 0 30000))) / 449985000"
proof -
  let ?ps = "pairs 30000 0 30000"
  let ?xs = "map fin_val (distances calculateAngularDistance example_array ?ps)"
  have nn: "\<forall>x \<in> set ?xs. 0 \<le> x"
  proof
    fix x assume "x \<in> set ?xs"
    then obtain i j where ij: "i < j" "j < 30000"
      and x: "x = fin_val (distance calculateAngularDistance example_array i j)"
      by (auto simp: distances_def set_pairs)
    from ij have "finite_coords (example_array ! i)" "finite_coords (example_array ! j)"
      by (simp_all add: example_array_finite)
    from distance_range [OF this] show "0 \<le> x" by (auto simp: x)
  qed
  have "(0, Suc 0) \<in> set ?ps" by (simp add: set_pairs)
  then have "fin_val (distance calculateAngularDistance example_array 0 (Suc 0)) \<in> set ?xs"
    by (force simp: distances_def)
  then have "90 \<in> set ?xs" by (simp only: example_array_distance fin_val.simps)
  with nn have "0 < sum_list ?xs" by (rule sum_list_pos) simp
  then show ?thesis by simp
qed

lemma thread_data_one:
  "thread_data kdist n a 1 g = [worker_data n (segment n a 1 n 0)]"
  by (simp add: thread_data_eq signed_divide_int_def mult_sgn_abs)

lemma length_spread: "length spread_lines = 30000" "length spread_array = 30000"
  by (simp_all add: spread_lines_def spread_array_def)

lemma spread_array_nth: "k < 30000 \<Longrightarrow> spread_array ! k = star_at (int k) (real k / 1000) 0"
  by (simp add: spread_array_def)

lemma store_spread_line:
  "store_columns zero_Star 0 (spread_line k) = Some (star_at (int k) (real k / 1000) 0)"
  by (simp add: spread_line_def tok_def zero_Star_def star_at_def)

lemma load_spread: "read_lines star_array 0 spread_lines = Inr (spread_array, 30000)"
proof -
  have "\<forall>l \<in> set spread_lines. length l \<le> 3"
    by (auto simp: spread_lines_def spread_line_def)
  from load_short [of spread_lines, unfolded length_spread, OF order_refl this]
  obtain sa where sa: "read_lines star_array 0 spread_lines = Inr (sa, 30000)"
    "length sa = 30000"
    "\<forall>i < 30000. store_columns zero_Star 0 (spread_lines ! i) = Some (sa ! i)"
    by blast
  have "sa = spread_array"
  proof (rule nth_equalityI)
    show "length sa = length spread_array" by (simp add: sa(2) length_spread)
  next
    fix i assume "i < length sa"
    then have i: "i < 30000" by (simp add: sa(2))
    have l: "spread_lines ! i = spread_line i" using i by (simp add: spread_lines_def)
    from sa(3) i have "store_columns zero_Star 0 (spread_lines ! i) = Some (sa ! i)" by blast
    then have "Some (star_at (int i) (real i / 1000) 0) = Some (sa ! i)"
      by (simp only: l store_spread_line)
    then show "sa ! i = spread_array ! i"
      using i by (simp add: spread_array_nth)
  qed
  with sa(1) show ?thesis by simp
qed

lemma spread_distance:
  assumes "i < j" "j < 30000"
  shows "distance calculateAngularDistance spread_array i j = Fin ((real j - real i) / 1000)"
proof -
  have "real i / 1000 \<le> real j / 1000" "real j / 1000 - real i / 1000 \<le> 180"
    using assms by simp_all
  from equator_distance [OF this] show ?thesis
    using assms by (simp add: distance_def spread_array_nth star_at_def diff_divide_distrib)
qed

lemma spread_finite:
  "\<forall>i j. i < j \<and> j < 30000 \<longrightarrow>
     (\<exists>x. distance calculateAngularDistance spread_array i j = Fin x \<and> 0 \<le> x \<and> x \<le> DBL_MAX)"
proof (intro allI impI)
  fix i j :: nat
  assume ij: "i < j \<and> j < 30000"
  then have "(real j - real i) / 1000 \<le> 180" by simp
  then have le: "(real j - real i) / 1000 \<le> DBL_MAX" using DBL_MAX_ge_180 by linarith
  have nn: "0 \<le> (real j - real i) / 1000" using ij by simp
  have d: "distance calculateAngularDistance spread_array i j = Fin ((real j - real i) / 1000)"
    using ij by (simp add: spread_distance)
  show "\<exists>x. distance calculateAngularDistance spread_array i j = Fin x \<and> 0 \<le> x \<and> x \<le> DBL_MAX"
    using d nn le by blast
qed

lemma spread_min:
  "Min {fin_val (distance calculateAngularDistance spread_array i j) | i j. i < j \<and> j < 30000}
     = 1 / 1000"
proof (rule Min_eqI)
  show "finite {fin_val (distance calculateAngularDistance spread_array i j) | i j. i < j \<and> j < 30000}"
    unfolding pair_set_image by simp
next
  fix y
  assume "y \<in> {fin_val (distance calculateAngularDistance spread_array i j) | i j. i < j \<and> j < 30000}"
  then obtain i j where ij: "i < j" "j < 30000"
    and y: "y = fin_val (distance calculateAngularDistance spread_array i j)" by blast
  have "1 \<le> real j - real i" using ij(1) by simp
  then show "1 / 1000 \<le> y" by (simp add: y spread_distance [OF ij])
next
  have "fin_val (distance calculateAngularDistance spread_array 0 1) = 1 / 1000"
    by (simp add: spread_distance)
  moreover have "(0::nat) < 1 \<and> (1::nat) < 30000" by simp
  ultimately show "1 / 1000 \<in> {fin_val (distance calculateAngularDistance spread_array i j) | i j. i < j \<and> j < 30000}"
    by (intro CollectI exI [of _ 0] exI [of _ 1]) simp
qed

lemma spread_max:
  "Max {fin_val (distance calculateAngularDistance spread_array i j) | i j. i < j \<and> j < 30000}
     = 29999 / 1000"
proof (rule Max_eqI)
  show "finite {fin_val (distance calculateAngularDistance spread_array i j) | i j. i < j \<and> j < 30000}"
    unfolding pair_set_image by simp
next
  fix y
  assume "y \<in> {fin_val (distance calculateAngularDistance spread_array i j) | i j. i < j \<and> j < 30000}"
  then obtain i j where ij: "i < j" "j < 30000"
    and y: "y = fin_val (distance calculateAngularDistance spread_array i j)" by blast
  have "real j - real i \<le> 29999" using ij by simp
  then show "y \<le> 29999 / 1000" by (simp add: y spread_distance [OF ij])
next
  have "fin_val (distance calculateAngularDistance spread_array 0 29999) = 29999 / 1000"
    by (simp add: spread_distance)
  moreover have "(0::nat) < 29999 \<and> (29999::nat) < 30000" by simp
  ultimately show "29999 / 1000 \<in> {fin_val (distance calculateAngularDistance spread_array i j) | i j. i < j \<and> j < 30000}"
    by (intro CollectI exI [of _ 0] exI [of _ 29999]) simp
qed

subsection \<open>What main publishes for the small files\<close>

lemma zero_distance: "calculateAngularDistance (Fin 0) (Fin 0) (Fin 0) (Fin 0) = Fin 0"
  by (simp add: cosTheta_same clamp_def degrees_def)

lemma example_array_zero: "3 \<le> k \<Longrightarrow> k < 30000 \<Longrightarrow> example_array ! k = zero_Star"
  by (simp add: example_array_def star_array_nth)

lemma example_array_range:
  "\<forall>i j. i < j \<and> j < 30000 \<longrightarrow>
     (\<exists>x. distance calculateAngularDistance example_array i j = Fin x \<and> 0 \<le> x \<and> x \<le> DBL_MAX)"
proof (intro allI impI)
  fix i j :: nat
  assume ij: "i < j \<and> j < 30000"
  then have "finite_coords (example_array ! i)" "finite_coords (example_array ! j)"
    by (simp_all add: example_array_finite)
  from distance_range [OF this] DBL_MAX_ge_180
  show "\<exists>x. distance calculateAngularDistance example_array i j = Fin x \<and> 0 \<le> x \<and> x \<le> DBL_MAX"
    by force
qed

lemma example_array_min:
  "Min {fin_val (distance calculateAngularDistance example_array i j) | i j. i < j \<and> j < 30000} = 0"
proof (rule Min_eqI)
  show "finite {fin_val (distance calculateAngularDistance example_array i j) | i j. i < j \<and> j < 30000}"
    unfolding pair_set_image by simp
next
  fix y
  assume "y \<in> {fin_val (distance calculateAngularDistance example_array i j) | i j. i < j \<and> j < 30000}"
  then obtain i j where ij: "i < j \<and> j < 30000"
    and y: "y = fin_val (distance calculateAngularDistance example_array i j)" by blast
  from ij have "finite_coords (example_array ! i)" "finite_coords (example_array ! j)"
    by (simp_all add: example_array_finite)
  from distance_range [OF this] show "0 \<le> y" by (auto simp: y)
next
  have "distance calculateAngularDistance example_array 3 4 = Fin 0"
    by (simp add: distance_def example_array_zero zero_Star_def cosTheta_same clamp_def
        degrees_def)
  then have "fin_val (distance calculateAngularDistance example_array 3 4) = 0" by simp
  moreover have "(3::nat) < 4 \<and> (4::nat) < 30000" by simp
  ultimately show "0 \<in> {fin_val (distance calculateAngularDistance example_array i j) | i j. i < j \<and> j < 30000}"
    by (intro CollectI exI [of _ 3] exI [of _ 4]) simp
qed

lemma example_array_far:
  "distance calculateAngularDistance example_array 0 2 = Fin 180"
  by (simp add: distance_def example_array_nth star_at_def cosTheta_def radians_def
      degrees_def clamp_def)

lemma example_array_max:
  "Max {fin_val (distance calculateAngularDistance example_array i j) | i j. i < j \<and> j < 30000} = 180"
proof (rule Max_eqI)
  show "finite {fin_val (distance calculateAngularDistance example_array i j) | i j. i < j \<and> j < 30000}"
    unfolding pair_set_image by simp
next
  fix y
  assume "y \<in> {fin_val (distance calculateAngularDistance example_array i j) | i j. i < j \<and> j < 30000}"
  then obtain i j where ij: "i < j \<and> j < 30000"
    and y: "y = fin_val (distance calculateAngularDistance example_array i j)" by blast
  from ij have "finite_coords (example_array ! i)" "finite_coords (example_array ! j)"
    by (simp_all add: example_array_finite)
  from distance_range [OF this] show "y \<le> 180" by (auto simp: y)
next
  have "fin_val (distance calculateAngularDistance example_array 0 2) = 180"
    by (simp add: example_array_far)
  moreover have "(0::nat) < 2 \<and> (2::nat) < 30000" by simp
  ultimately show "180 \<in> {fin_val (distance calculateAngularDistance example_array i j) | i j. i < j \<and> j < 30000}"
    by (intro CollectI exI [of _ 0] exI [of _ 2]) simp
qed

lemma main_min_max:
  assumes "read_lines star_array 0 lines = Inr (sa, c)" "1 \<le> T"
    and "\<forall>i j. i < j \<and> j < 30000 \<longrightarrow>
           (\<exists>x. distance kdist sa i j = Fin x \<and> 0 \<le> x \<and> x \<le> DBL_MAX)"
  shows "main kdist lines T =
           Inr \<lparr>min' = Fin (Min {fin_val (distance kdist sa i j) | i j. i < j \<and> j < 30000}),
                max' = Fin (Max {fin_val (distance kdist sa i j) | i j. i < j \<and> j < 30000}),
                mean = Fin 0\<rparr>"
proof -
  have n: "0 \<le> NUM_STARS" "NUM_STARS \<le> INT_MAX" "nat NUM_STARS = 30000" "(2::nat) \<le> 30000"
    by (simp_all add: NUM_STARS_def INT_MAX_def)
  note mm = min_max_finite [OF n(4) assms(3)]
  show ?thesis
    unfolding main_eq [OF assms(1)] run_initial [OF n(1,2) assms(2)] n(3) mm by simp
qed

lemma example_run:
  "1 \<le> T \<Longrightarrow> main calculateAngularDistance example_lines T
     = Inr \<lparr>min' = Fin 0, max' = Fin 180, mean = Fin 0\<rparr>"
  using main_min_max [OF load_example _ example_array_range, of T]
  by (simp add: example_array_min example_array_max)








lemma program_totals:
  "1 \<le> T \<Longrightarrow> totals kdist NUM_STARS sa T initial_globals = (Fin 0, 449985000)"
  using totals_eq [of NUM_STARS T kdist sa initial_globals] by (simp add: NUM_STARS_def)

lemma example_array_near:
  "distance calculateAngularDistance example_array (Suc 0) 2 = Fin 90"
  by (simp add: distance_def example_array_nth star_at_def cosTheta_def radians_def
      degrees_def clamp_def)

section \<open>The claims\<close>

text \<open>
  C1, what the code does. On the file of the three example points and one worker the
  published mean is 0 and so is the sum the worker stores, although slots 0 and 1 are 90
  degrees apart and the arithmetic mean of the distances of all pairs of slots is
  positive: the local \<open>sum\<close> is never added to.
\<close>

theorem mean_stays_zero:
  "\<exists>g. read_lines star_array 0 example_lines = Inr (example_array, 3)
      \<and> main calculateAngularDistance example_lines 1 = Inr g
      \<and> mean g = Fin 0
      \<and> map data_sum (thread_data calculateAngularDistance NUM_STARS example_array 1
           initial_globals) = [Fin 0]
      \<and> totals calculateAngularDistance NUM_STARS example_array 1 initial_globals
           = (Fin 0, 449985000)
      \<and> distance calculateAngularDistance example_array 0 1 = Fin 90
      \<and> 0 < sum_list (map fin_val (distances calculateAngularDistance example_array
               (pairs 30000 0 30000))) / 449985000"
proof -
  have h: "2 \<le> NUM_STARS" "NUM_STARS \<le> INT_MAX" "(1::int) \<le> 1"
    by (simp_all add: NUM_STARS_def INT_MAX_def)
  from mean_zero [OF h, of calculateAngularDistance example_array]
  obtain g where g: "determineAverageAngularDistance calculateAngularDistance NUM_STARS
      example_array 1 initial_globals = Inr g" "mean g = Fin 0"
    by blast
  have m: "main calculateAngularDistance example_lines 1 = Inr g"
    using main_eq [OF load_example] g(1) by simp
  have t: "totals calculateAngularDistance NUM_STARS example_array 1 initial_globals
           = (Fin 0, 449985000)"
    using totals_eq [of NUM_STARS 1 calculateAngularDistance example_array initial_globals]
    by (simp add: NUM_STARS_def)
  have d: "map data_sum (thread_data calculateAngularDistance NUM_STARS example_array 1
           initial_globals) = [Fin 0]"
    by (simp add: thread_data_one)
  show ?thesis
    using load_example m g(2) t d example_array_distance example_array_mean_pos
    by (intro exI [of _ g]) simp
qed

text \<open>
  C2 as the code has it. For a file of at most 30000 lines of at most three columns,
  \<open>T \<ge> 1\<close> workers and a kernel that gives each pair of slots a finite distance between
  0 and \<open>DBL_MAX\<close>: the array holds the records read followed by slots that are still
  zero, and the published \<open>min\<close> and \<open>max\<close> are the least and the greatest distance over
  all pairs \<open>i < j < 30000\<close> of slots of the array. They are those of the pairs of
  catalogue positions when the file holds 30000 records.
\<close>

theorem program_min_max:
  assumes "length lines \<le> 30000" "\<forall>l \<in> set lines. length l \<le> 3" "1 \<le> T"
    and "read_lines star_array 0 lines = Inr (sa, c)"
    and "\<forall>i j. i < j \<and> j < 30000 \<longrightarrow>
           (\<exists>x. distance kdist sa i j = Fin x \<and> 0 \<le> x \<and> x \<le> DBL_MAX)"
  shows "length sa = 30000 \<and> c = length lines
       \<and> (\<forall>i < length lines. store_columns zero_Star 0 (lines ! i) = Some (sa ! i))
       \<and> (\<forall>k. length lines \<le> k \<and> k < 30000 \<longrightarrow> sa ! k = zero_Star)
       \<and> (\<exists>g. main kdist lines T = Inr g
            \<and> min' g = Fin (Min {fin_val (distance kdist sa i j) | i j. i < j \<and> j < 30000})
            \<and> max' g = Fin (Max {fin_val (distance kdist sa i j) | i j. i < j \<and> j < 30000}))"
proof -
  from load_short [OF assms(1,2)] obtain sa'
    where l: "read_lines star_array 0 lines = Inr (sa', length lines)" "length sa' = 30000"
      "\<forall>k. length lines \<le> k \<and> k < 30000 \<longrightarrow> sa' ! k = zero_Star"
      "\<forall>i < length lines. store_columns zero_Star 0 (lines ! i) = Some (sa' ! i)"
    by blast
  from l(1) assms(4) have e: "sa' = sa" "c = length lines" by simp_all
  note m = main_min_max [OF assms(4,3,5)]
  show ?thesis using l(2-4) e m by simp
qed

theorem program_min_max_witness:
  "length example_lines \<le> 30000 \<and> map length example_lines = [3, 3, 3] \<and> (1::int) \<le> 2
   \<and> read_lines star_array 0 example_lines = Inr (example_array, 3)
   \<and> 180 \<le> DBL_MAX
   \<and> (\<exists>g. main calculateAngularDistance example_lines 2 = Inr g
          \<and> min' g = Fin 0 \<and> max' g = Fin 180)"
proof -
  have h: "length example_lines \<le> 30000" "\<forall>l \<in> set example_lines. length l \<le> 3"
    "(1::int) \<le> 2"
    by (simp_all add: example_lines_def)
  have l: "map length example_lines = [3, 3, 3]" by (simp add: example_lines_def)
  from program_min_max [OF h load_example example_array_range]
  have "\<exists>g. main calculateAngularDistance example_lines 2 = Inr g
          \<and> min' g = Fin 0 \<and> max' g = Fin 180"
    by (simp add: example_array_min example_array_max)
  with h(1,3) l load_example DBL_MAX_ge_180 show ?thesis by blast
qed

theorem three_point_file_counterexample:
  "read_lines star_array 0 example_lines = Inr (example_array, 3)
   \<and> distance calculateAngularDistance example_array 0 1 = Fin 90
   \<and> distance calculateAngularDistance example_array 0 2 = Fin 180
   \<and> distance calculateAngularDistance example_array 1 2 = Fin 90
   \<and> main calculateAngularDistance example_lines 1
       = Inr \<lparr>min' = Fin 0, max' = Fin 180, mean = Fin 0\<rparr>"
  using load_example example_run [of 1]
  by (simp add: example_array_distance example_array_far example_array_near)

text \<open>
  C3 as the code has it. For a file of at most 30000 lines of at most three columns and
  \<open>T \<ge> 1\<close>: the loops of a worker run their body on the pairs \<open>(i, j)\<close> with \<open>i\<close> in its
  segment and \<open>i < j < 30000\<close>, once each, and its count is their number; over all workers
  every pair \<open>i < j < 30000\<close> is visited exactly once, and the counts add up to
  \<open>30000 * 29999 / 2 = 449985000\<close> whatever the number \<open>N\<close> of records, which is
  \<open>N * (N - 1) / 2\<close> when the file holds 30000 records.
\<close>

theorem program_pair_count:
  assumes "length lines \<le> 30000" "\<forall>l \<in> set lines. length l \<le> 3" "1 \<le> T"
  shows "\<exists>sa. read_lines star_array 0 lines = Inr (sa, length lines)
       \<and> (let ds = thread_data kdist NUM_STARS sa T initial_globals in
             snd (totals kdist NUM_STARS sa T initial_globals) = sum_list (map data_count ds)
           \<and> snd (totals kdist NUM_STARS sa T initial_globals) = 449985000
           \<and> (\<forall>d \<in> set ds.
                 (\<forall>s. outer_loop kdist (u32 NUM_STARS) (arr d) (u32 (start d)) (u32 (end' d)) s
                        = fold (\<lambda>(i, j). pair_step kdist (arr d) i j) (seg_pairs NUM_STARS d) s)
                 \<and> data_count d = length (seg_pairs NUM_STARS d)
                 \<and> set (seg_pairs NUM_STARS d)
                     = {(i, j). start d \<le> int i \<and> int i < end' d \<and> i < j \<and> int j < NUM_STARS})
           \<and> distinct (concat (map (seg_pairs NUM_STARS) ds))
           \<and> set (concat (map (seg_pairs NUM_STARS) ds)) = {(i, j). i < j \<and> j < 30000})
       \<and> (length lines = 30000 \<longrightarrow>
             snd (totals kdist NUM_STARS sa T initial_globals)
               = length lines * (length lines - 1) div 2)"
proof -
  from load_short [OF assms(1,2)] obtain sa
    where sa: "read_lines star_array 0 lines = Inr (sa, length lines)" by blast
  let ?ds = "thread_data kdist NUM_STARS sa T initial_globals"
  note ct = counts_all [OF NUM_STARS_bounds(1,2) assms(3), of kdist sa initial_globals]
  from ct have c1: "snd (totals kdist NUM_STARS sa T initial_globals) = sum_list (map data_count ?ds)"
    and c2: "snd (totals kdist NUM_STARS sa T initial_globals)
               = nat NUM_STARS * (nat NUM_STARS - 1) div 2"
    and c3: "\<forall>d \<in> set ?ds.
                 (\<forall>s. outer_loop kdist (u32 NUM_STARS) (arr d) (u32 (start d)) (u32 (end' d)) s
                        = fold (\<lambda>(i, j). pair_step kdist (arr d) i j) (seg_pairs NUM_STARS d) s)
                 \<and> data_count d = length (seg_pairs NUM_STARS d)
                 \<and> set (seg_pairs NUM_STARS d)
                     = {(i, j). start d \<le> int i \<and> int i < end' d \<and> i < j \<and> int j < NUM_STARS}"
    and c4: "distinct (concat (map (seg_pairs NUM_STARS) ?ds))"
    and c5: "set (concat (map (seg_pairs NUM_STARS) ?ds)) = {(i, j). i < j \<and> j < nat NUM_STARS}"
    unfolding Let_def by blast+
  have c2': "snd (totals kdist NUM_STARS sa T initial_globals) = 449985000"
    unfolding c2 by (simp add: NUM_STARS_def)
  have c5': "set (concat (map (seg_pairs NUM_STARS) ?ds)) = {(i, j). i < j \<and> j < 30000}"
    unfolding c5 NUM_STARS_bounds(3) ..
  have c6: "length lines = 30000 \<longrightarrow>
             snd (totals kdist NUM_STARS sa T initial_globals)
               = length lines * (length lines - 1) div 2"
    unfolding c2' by simp
  show ?thesis
    unfolding Let_def using sa c1 c2' c3 c4 c5' c6 by blast
qed

theorem program_pair_count_witness:
  "length example_lines \<le> 30000 \<and> map length example_lines = [3, 3, 3] \<and> (1::int) \<le> 4
   \<and> (\<exists>sa. read_lines star_array 0 example_lines = Inr (sa, 3)
          \<and> snd (totals calculateAngularDistance NUM_STARS sa 4 initial_globals) = 449985000
          \<and> distinct (concat (map (seg_pairs NUM_STARS)
                (thread_data calculateAngularDistance NUM_STARS sa 4 initial_globals))))"
proof -
  have h: "length example_lines \<le> 30000" "\<forall>l \<in> set example_lines. length l \<le> 3"
    "(1::int) \<le> 4"
    by (simp_all add: example_lines_def)
  have l: "map length example_lines = [3, 3, 3]" "length example_lines = 3"
    by (simp_all add: example_lines_def)
  from program_pair_count [OF h, of calculateAngularDistance]
  have "\<exists>sa. read_lines star_array 0 example_lines = Inr (sa, 3)
          \<and> snd (totals calculateAngularDistance NUM_STARS sa 4 initial_globals) = 449985000
          \<and> distinct (concat (map (seg_pairs NUM_STARS)
                (thread_data calculateAngularDistance NUM_STARS sa 4 initial_globals)))"
    unfolding Let_def l(2) by blast
  with h(1,3) l(1) show ?thesis by blast
qed

theorem three_point_count_counterexample:
  "read_lines star_array 0 example_lines = Inr (example_array, 3)
   \<and> length example_lines = 3 \<and> (3::nat) * (3 - 1) div 2 = 3
   \<and> totals calculateAngularDistance NUM_STARS example_array 1 initial_globals
       = (Fin 0, 449985000)"
  using load_example program_totals [of 1 calculateAngularDistance example_array]
  by (simp add: example_lines_def)

text \<open>
  C4. For every \<open>N \<ge> 0\<close> and every \<open>T \<ge> 1\<close> the creation loop makes exactly \<open>T\<close>
  segments; segment \<open>k\<close> starts at \<open>k * (N div T)\<close> and ends where the next one
  starts, so every segment but the last has \<open>N div T\<close> indices; the last one ends at
  \<open>N\<close>; two different segments share no index and together the segments are \<open>[0, N)\<close>.
\<close>

theorem partition_segments:
  assumes "0 \<le> n" "1 \<le> T"
  shows "let ds = thread_data kdist n a T g in
           length ds = nat T
         \<and> (\<forall>k < nat T. start (ds ! k) = int k * (n div T)
               \<and> end' (ds ! k) = (if int k = T - 1 then n else (int k + 1) * (n div T))
               \<and> start (ds ! k) \<le> end' (ds ! k))
         \<and> (\<forall>k l. k < l \<and> l < nat T \<longrightarrow>
               {start (ds ! k)..<end' (ds ! k)} \<inter> {start (ds ! l)..<end' (ds ! l)} = {})
         \<and> (\<Union>d \<in> set ds. {start d..<end' d}) = {0..<n}
         \<and> end' (last ds) = n"
  using assms by (rule segments_all)

theorem partition_segments_witness:
  "(0::int) \<le> 10 \<and> (1::int) \<le> 3
   \<and> (let ds = thread_data calculateAngularDistance 10 (replicate 10 zero_Star) 3 initial_globals in
           length ds = nat 3
         \<and> (\<forall>k < nat 3. start (ds ! k) = int k * (10 div 3)
               \<and> end' (ds ! k) = (if int k = 3 - 1 then 10 else (int k + 1) * (10 div 3))
               \<and> start (ds ! k) \<le> end' (ds ! k))
         \<and> (\<forall>k l. k < l \<and> l < nat 3 \<longrightarrow>
               {start (ds ! k)..<end' (ds ! k)} \<inter> {start (ds ! l)..<end' (ds ! l)} = {})
         \<and> (\<Union>d \<in> set ds. {start d..<end' d}) = {0..<10}
         \<and> end' (last ds) = 10)"
proof -
  have h: "(0::int) \<le> 10" "(1::int) \<le> 3" by simp_all
  note p = partition_segments [OF h, of calculateAngularDistance "replicate 10 zero_Star"
      initial_globals]
  show ?thesis by (intro conjI) (rule h p)+
qed

text \<open>
  C5. For a catalogue of \<open>N\<close> positions and any kernel, the run with one worker and the
  run with \<open>k > 1\<close> workers, each from the initial globals, end with the same \<open>min\<close> and
  the same \<open>max\<close>.
\<close>

theorem worker_count_invariance:
  assumes "0 \<le> n" "n \<le> INT_MAX" "1 < k" "length a = nat n"
  shows "\<exists>g1 gk. determineAverageAngularDistance kdist n a 1 initial_globals = Inr g1
           \<and> determineAverageAngularDistance kdist n a k initial_globals = Inr gk
           \<and> min' g1 = min' gk \<and> max' g1 = max' gk"
proof -
  have k: "1 \<le> k" using assms(3) by simp
  show ?thesis
    using run_initial [OF assms(1,2) k, of kdist a] run_initial [OF assms(1,2), of 1 kdist a]
    by simp
qed

theorem worker_count_invariance_witness:
  "(0::int) \<le> 3 \<and> (3::int) \<le> INT_MAX \<and> (1::int) < 2 \<and> length example_catalogue = nat 3
   \<and> (\<exists>g1 gk. determineAverageAngularDistance calculateAngularDistance 3 example_catalogue 1
                   initial_globals = Inr g1
          \<and> determineAverageAngularDistance calculateAngularDistance 3 example_catalogue 2
                   initial_globals = Inr gk
          \<and> min' g1 = min' gk \<and> max' g1 = max' gk)"
proof -
  have h: "(0::int) \<le> 3" "(3::int) \<le> INT_MAX" "(1::int) < 2"
    "length example_catalogue = nat 3"
    by (simp_all add: INT_MAX_def example_catalogue_def)
  from worker_count_invariance [OF h, of calculateAngularDistance] h show ?thesis by blast
qed

text \<open>
  C6. In the kernel of the spec the cosine is clamped before the inverse cosine: whatever
  value the rounded evaluation of the law of cosines gives, for any two positions
  (identical and antipodal ones included), the argument of the inverse cosine lies in
  \<open>[-1, 1]\<close>, the inverse cosine is defined there, and the distance is not a NaN.
\<close>

theorem clamp_guards_acos:
  "- 1 \<le> clamp (rnd (cosTheta ra1 dec1 ra2 dec2))
   \<and> clamp (rnd (cosTheta ra1 dec1 ra2 dec2)) \<le> 1
   \<and> acos_double (clamp (rnd (cosTheta ra1 dec1 ra2 dec2)))
       = Fin (arccos (clamp (rnd (cosTheta ra1 dec1 ra2 dec2))))
   \<and> rounded_distance rnd ra1 dec1 ra2 dec2
       = Fin (rnd (degrees (arccos (clamp (rnd (cosTheta ra1 dec1 ra2 dec2))))))
   \<and> rounded_distance rnd ra1 dec1 ra2 dec2 \<noteq> NaN"
  by (simp add: rounded_distance_def acos_double_def clamp_range)

text \<open>
  C7 as the code has it. A thread count below one is not checked and no configuration
  error exists. With \<open>T = 0\<close> the run stops at the division \<open>NUM_STARS / T\<close>, before any
  segment or worker is made; with \<open>T < 0\<close> the loops over the workers run zero times, no
  segment and no worker is made, and a result is still produced: \<open>min\<close> and \<open>max\<close> as
  they were and \<open>mean\<close> the NaN of \<open>0.0 / 0\<close>.
\<close>

theorem nonpositive_thread_count:
  assumes "T \<le> 0"
  shows "thread_data kdist n a T g = []
       \<and> determineAverageAngularDistance kdist n a T g
           = (if T = 0 then Inl DivisionByZero else Inr (g\<lparr>mean := NaN\<rparr>))"
proof -
  have "thread_data kdist n a T g = []" using assms by (simp add: thread_data_eq)
  moreover have "determineAverageAngularDistance kdist n a 0 g = Inl DivisionByZero"
    by (simp add: determineAverageAngularDistance_def)
  ultimately show ?thesis using assms run_negative [of T kdist n a g] by auto
qed

theorem nonpositive_thread_count_witness:
  "(- 2::int) \<le> 0
   \<and> thread_data calculateAngularDistance NUM_STARS star_array (- 2) initial_globals = []
   \<and> determineAverageAngularDistance calculateAngularDistance NUM_STARS star_array (- 2)
        initial_globals = Inr \<lparr>min' = Fin DBL_MAX, max' = Fin 0, mean = NaN\<rparr>"
proof -
  have h: "(- 2::int) \<le> 0" by simp
  from nonpositive_thread_count [OF h, of calculateAngularDistance NUM_STARS star_array
      initial_globals]
  show ?thesis by (simp add: initial_globals_def)
qed

theorem negative_thread_count_counterexample:
  "determineAverageAngularDistance calculateAngularDistance NUM_STARS star_array (- 1)
     initial_globals = Inr \<lparr>min' = Fin DBL_MAX, max' = Fin 0, mean = NaN\<rparr>"
  by (simp add: run_negative initial_globals_def)




text \<open>
  C9, what the code does. On the file of 30000 points spread along the equator and one
  worker, every two slots are at least a thousandth of a degree apart: the published
  \<open>min\<close> is \<open>0.001\<close>, \<open>max\<close> is \<open>29.999\<close>, and \<open>mean\<close> is 0, below \<open>min\<close>.
\<close>

theorem mean_below_min:
  "\<exists>g. main calculateAngularDistance spread_lines 1 = Inr g
      \<and> min' g = Fin (1 / 1000) \<and> max' g = Fin (29999 / 1000) \<and> mean g = Fin 0
      \<and> dless (mean g) (min' g)"
proof -
  have h: "2 \<le> NUM_STARS" "NUM_STARS \<le> INT_MAX" "(1::int) \<le> 1"
    by (simp_all add: NUM_STARS_def INT_MAX_def)
  have n: "0 \<le> NUM_STARS" "nat NUM_STARS = 30000" "(2::nat) \<le> 30000"
    by (simp_all add: NUM_STARS_def)
  note mm = min_max_finite [OF n(3) spread_finite]
  have r: "determineAverageAngularDistance calculateAngularDistance NUM_STARS spread_array 1
             initial_globals
           = Inr \<lparr>min' = Fin (1 / 1000), max' = Fin (29999 / 1000), mean = Fin 0\<rparr>"
    unfolding run_initial [OF n(1) h(2,3)] n(2) mm spread_min spread_max by simp
  have "main calculateAngularDistance spread_lines 1
           = Inr \<lparr>min' = Fin (1 / 1000), max' = Fin (29999 / 1000), mean = Fin 0\<rparr>"
    using main_eq [OF load_spread] r by simp
  then show ?thesis by simp
qed

text \<open>
  C10. The loops and the segments are bounded by the constant \<open>NUM_STARS = 30000\<close>, not by
  the number of lines read: for a file of fewer than 30000 lines (none with more than three
  columns, so that the loader ends) and \<open>T \<ge> 1\<close>, the slots from the number of lines on
  still hold the zero of static storage, the function runs on the whole array, the
  segments are \<open>[0, 30000)\<close>, the pairs visited are all \<open>i < j < 30000\<close>, and the count
  is \<open>30000 * 29999 / 2\<close>.
\<close>

theorem fixed_bound:
  assumes "length lines < 30000" "\<forall>l \<in> set lines. length l \<le> 3" "1 \<le> T"
  shows "\<exists>sa. NUM_STARS = 30000
           \<and> read_lines star_array 0 lines = Inr (sa, length lines)
           \<and> length sa = 30000
           \<and> (\<forall>k. length lines \<le> k \<and> k < 30000 \<longrightarrow> sa ! k = zero_Star)
           \<and> main kdist lines T
               = determineAverageAngularDistance kdist NUM_STARS sa T initial_globals
           \<and> (let ds = thread_data kdist NUM_STARS sa T initial_globals in
                 (\<Union>d \<in> set ds. {start d..<end' d}) = {0..<NUM_STARS}
               \<and> end' (last ds) = NUM_STARS
               \<and> (\<forall>d \<in> set ds. data_count d = length (seg_pairs NUM_STARS d))
               \<and> set (concat (map (seg_pairs NUM_STARS) ds))
                   = {(i, j). i < j \<and> j < nat NUM_STARS})
           \<and> snd (totals kdist NUM_STARS sa T initial_globals) = 449985000"
proof -
  from load_short [of lines] assms obtain sa
    where sa: "read_lines star_array 0 lines = Inr (sa, length lines)" "length sa = 30000"
      "\<forall>k. length lines \<le> k \<and> k < 30000 \<longrightarrow> sa ! k = zero_Star"
    by auto
  let ?ds = "thread_data kdist NUM_STARS sa T initial_globals"
  note m = main_eq [OF sa(1), of kdist T]
  note sg = segments_all [OF NUM_STARS_bounds(1) assms(3), of kdist sa initial_globals]
  note ct = counts_all [OF NUM_STARS_bounds(1,2) assms(3), of kdist sa initial_globals]
  have N: "NUM_STARS = 30000" by (simp add: NUM_STARS_def)
  from sg have s1: "(\<Union>d \<in> set ?ds. {start d..<end' d}) = {0..<NUM_STARS}"
    and s2: "end' (last ?ds) = NUM_STARS"
    unfolding Let_def by blast+
  from ct have c1: "\<forall>d \<in> set ?ds. data_count d = length (seg_pairs NUM_STARS d)"
    and c2: "set (concat (map (seg_pairs NUM_STARS) ?ds)) = {(i, j). i < j \<and> j < nat NUM_STARS}"
    and c3: "snd (totals kdist NUM_STARS sa T initial_globals)
               = nat NUM_STARS * (nat NUM_STARS - 1) div 2"
    unfolding Let_def by blast+
  have c4: "snd (totals kdist NUM_STARS sa T initial_globals) = 449985000"
    unfolding c3 by (simp add: NUM_STARS_def)
  show ?thesis
    unfolding Let_def using N sa m s1 s2 c1 c2 c4 by blast
qed

theorem fixed_bound_witness:
  "length example_lines < 30000 \<and> map length example_lines = [3, 3, 3] \<and> (1::int) \<le> 4
   \<and> (\<exists>sa. read_lines star_array 0 example_lines = Inr (sa, 3)
          \<and> sa ! 3 = zero_Star \<and> sa ! 29999 = zero_Star
          \<and> end' (last (thread_data calculateAngularDistance NUM_STARS sa 4 initial_globals))
              = 30000
          \<and> snd (totals calculateAngularDistance NUM_STARS sa 4 initial_globals) = 449985000)"
proof -
  have h: "length example_lines < 30000" "\<forall>l \<in> set example_lines. length l \<le> 3"
    "(1::int) \<le> 4"
    by (simp_all add: example_lines_def)
  have l: "map length example_lines = [3, 3, 3]" "length example_lines = 3"
    by (simp_all add: example_lines_def)
  from fixed_bound [OF h, of calculateAngularDistance]
  have "\<exists>sa. read_lines star_array 0 example_lines = Inr (sa, 3)
          \<and> sa ! 3 = zero_Star \<and> sa ! 29999 = zero_Star
          \<and> end' (last (thread_data calculateAngularDistance NUM_STARS sa 4 initial_globals))
              = 30000
          \<and> snd (totals calculateAngularDistance NUM_STARS sa 4 initial_globals) = 449985000"
    unfolding Let_def l(2) by auto
  with h(1,3) l(1) show ?thesis by blast
qed

end
